theory Spec2Isabelle
  imports Complex_Main "HOL-Library.AList"
begin

section \<open>Sliding-window rate limiter (security/rate\_limiter.py)\<close>

text \<open>
  \<^verbatim>\<open>RateLimiter\<close> keeps, per key, the list of admission times. \<^verbatim>\<open>_storage\<close> is a
  \<^verbatim>\<open>defaultdict(list)\<close>: every key reads as the empty list until written, so it is a total
  function from keys to lists. \<^verbatim>\<open>time.time()\<close> is a number of seconds; the clock readings
  taken inside one call of \<^verbatim>\<open>is_allowed\<close> are represented by the single argument
  \<open>now\<close>.
\<close>

record rate_limiter =
  requests :: int
  window :: int
  storage :: "string \<Rightarrow> real list"

record rate_meta =
  limit :: int
  remaining :: int
  reset :: int

definition RateLimiter :: "int \<Rightarrow> int \<Rightarrow> rate_limiter" where
  "RateLimiter n w = \<lparr>requests = n, window = w, storage = (\<lambda>_. [])\<rparr>"

definition clean_old_requests :: "rate_limiter \<Rightarrow> string \<Rightarrow> real \<Rightarrow> rate_limiter" where
  "clean_old_requests rl key current_time =
     rl\<lparr>storage := (storage rl)
        (key := filter (\<lambda>t. current_time - t < real_of_int (window rl)) (storage rl key))\<rparr>"

text \<open>\<^verbatim>\<open>int(x)\<close> on a float truncates toward zero.\<close>

definition int_of_float :: "real \<Rightarrow> int" where
  "int_of_float x = (if x < 0 then \<lceil>x\<rceil> else \<lfloor>x\<rfloor>)"

definition is_allowed :: "rate_limiter \<Rightarrow> string \<Rightarrow> real \<Rightarrow> (bool \<times> rate_meta) \<times> rate_limiter" where
  "is_allowed rl key now =
     (let rl1 = clean_old_requests rl key now;
          current_count = int (length (storage rl1 key));
          rem = max 0 (requests rl1 - current_count);
          meta = \<lparr>limit = requests rl1, remaining = rem, reset = int_of_float now + window rl1\<rparr>
      in if current_count \<ge> requests rl1 then ((False, meta), rl1)
         else ((True, meta\<lparr>remaining := rem - 1\<rparr>),
               rl1\<lparr>storage := (storage rl1)(key := storage rl1 key @ [now])\<rparr>))"

text \<open>A series of calls for one key, at the given clock readings, threading the limiter.\<close>

fun allow_calls :: "rate_limiter \<Rightarrow> string \<Rightarrow> real list \<Rightarrow> (bool \<times> rate_meta) list \<times> rate_limiter" where
  "allow_calls rl key [] = ([], rl)"
| "allow_calls rl key (t # ts) =
     (case is_allowed rl key t of
        (r, rl') \<Rightarrow> (case allow_calls rl' key ts of (rs, rl'') \<Rightarrow> (r # rs, rl'')))"

section \<open>Errors\<close>

text \<open>
  Every exception the modelled code can raise is a value. \<open>HTTPException\<close> carries the
  status code and the \<^verbatim>\<open>detail\<close> text; the other constructors are the exceptions of
  Python itself and of the libraries the code calls, none of which the repository catches
  unless stated.
\<close>

type_synonym pystr = "nat list"  \<comment> \<open>a Python \<^verbatim>\<open>str\<close> as its code points\<close>
type_synonym bytes = "nat list"  \<comment> \<open>a Python \<^verbatim>\<open>bytes\<close>, every element below 256\<close>

datatype jwt_failure = Malformed | BadSignature | BadClaims | Expired

datatype error =
    HTTPException nat pystr
  | JWTError jwt_failure
  | UnicodeEncodeError
  | UnknownHashError
  | MalformedHashError
  | IntegrityError
  | ValidationError
  | ValueError

section \<open>Password hashing (auth/password.py)\<close>

subsection \<open>\<^verbatim>\<open>str.encode('utf-8')\<close> and \<^verbatim>\<open>bytes.decode('utf-8', errors='ignore')\<close>\<close>

text \<open>
  A \<^verbatim>\<open>str\<close> holds code points up to \<open>0x10FFFF\<close>. Encoding is strict: a lone surrogate
  raises \<^verbatim>\<open>UnicodeEncodeError\<close>. (Numbers above \<open>0x10FFFF\<close> are no code points; the model
  refuses them the same way.)
\<close>

definition encodable :: "pystr \<Rightarrow> bool" where
  "encodable s \<longleftrightarrow> (\<forall>c \<in> set s. c < 0xD800 \<or> (0xE000 \<le> c \<and> c \<le> 0x10FFFF))"

definition utf8_char :: "nat \<Rightarrow> bytes" where
  "utf8_char c =
     (if c < 0x80 then [c]
      else if c < 0x800 then [0xC0 + c div 64, 0x80 + c mod 64]
      else if c < 0x10000 then [0xE0 + c div 4096, 0x80 + (c div 64) mod 64, 0x80 + c mod 64]
      else [0xF0 + c div 262144, 0x80 + (c div 4096) mod 64, 0x80 + (c div 64) mod 64,
            0x80 + c mod 64])"

definition encode_utf8 :: "pystr \<Rightarrow> error + bytes" where
  "encode_utf8 s = (if encodable s then Inr (concat (map utf8_char s)) else Inl UnicodeEncodeError)"

definition is_cont :: "nat \<Rightarrow> bool" where
  "is_cont b \<longleftrightarrow> 0x80 \<le> b \<and> b \<le> 0xBF"

text \<open>The second byte of a multi-byte sequence, with the ranges that exclude overlong forms,
  surrogates and values above \<open>0x10FFFF\<close>.\<close>

definition second_ok :: "nat \<Rightarrow> nat \<Rightarrow> bool" where
  "second_ok b b1 =
     (if b = 0xE0 then 0xA0 \<le> b1 \<and> b1 \<le> 0xBF
      else if b = 0xED then 0x80 \<le> b1 \<and> b1 \<le> 0x9F
      else if b = 0xF0 then 0x90 \<le> b1 \<and> b1 \<le> 0xBF
      else if b = 0xF4 then 0x80 \<le> b1 \<and> b1 \<le> 0x8F
      else is_cont b1)"

text \<open>
  Decoding with \<^verbatim>\<open>errors='ignore'\<close>, one sequence at a time: \<open>decode_step\<close> returns the
  code point of the sequence at the head of the input (none when that sequence is invalid
  or cut off) and the input that remains. A well-formed sequence gives its code point; an
  invalid start byte is skipped; a sequence broken by a byte that cannot continue it is
  skipped up to that byte; a sequence cut off by the end of the input is dropped. The source
  only ever decodes a prefix of a valid encoding, where the last case is the one that occurs.
\<close>

definition decode_step :: "nat \<Rightarrow> bytes \<Rightarrow> pystr \<times> bytes" where
  "decode_step b bs =
     (if b < 0x80 then ([b], bs)
      else if 0xC2 \<le> b \<and> b \<le> 0xDF then
        (case bs of
           [] \<Rightarrow> ([], [])
         | b1 # r1 \<Rightarrow>
             if is_cont b1 then ([(b - 0xC0) * 64 + (b1 - 0x80)], r1) else ([], bs))
      else if 0xE0 \<le> b \<and> b \<le> 0xEF then
        (case bs of
           [] \<Rightarrow> ([], [])
         | b1 # r1 \<Rightarrow>
             if \<not> second_ok b b1 then ([], bs)
             else (case r1 of
                     [] \<Rightarrow> ([], [])
                   | b2 # r2 \<Rightarrow>
                       if is_cont b2
                       then ([(b - 0xE0) * 4096 + (b1 - 0x80) * 64 + (b2 - 0x80)], r2)
                       else ([], r1)))
      else if 0xF0 \<le> b \<and> b \<le> 0xF4 then
        (case bs of
           [] \<Rightarrow> ([], [])
         | b1 # r1 \<Rightarrow>
             if \<not> second_ok b b1 then ([], bs)
             else (case r1 of
                     [] \<Rightarrow> ([], [])
                   | b2 # r2 \<Rightarrow>
                       if \<not> is_cont b2 then ([], r1)
                       else (case r2 of
                               [] \<Rightarrow> ([], [])
                             | b3 # r3 \<Rightarrow>
                                 if is_cont b3
                                 then ([(b - 0xF0) * 262144 + (b1 - 0x80) * 4096
                                         + (b2 - 0x80) * 64 + (b3 - 0x80)], r3)
                                 else ([], r2))))
      else ([], bs))"

function decode_utf8_ignore :: "bytes \<Rightarrow> pystr" where
  "decode_utf8_ignore [] = []"
| "decode_utf8_ignore (b # bs) =
     (case decode_step b bs of (out, rest) \<Rightarrow> out @ decode_utf8_ignore rest)"
  by pat_completeness auto
termination
proof (relation "measure length", goal_cases)
  case 1
  show ?case by simp
next
  case (2 b bs out rest)
  have "length (snd (decode_step b bs)) \<le> length bs"
    by (simp add: decode_step_def split: list.split)
  moreover have "rest = snd (decode_step b bs)"
    using 2 by (metis snd_conv)
  ultimately show ?case by simp
qed

subsection \<open>The hashing context\<close>

text \<open>
  \<^verbatim>\<open>pwd_context\<close> is a \<^verbatim>\<open>CryptContext\<close> of the third-party library passlib, configured for
  bcrypt. The library is not part of the repository, so the two operations the code calls
  enter as a parameter. \<^verbatim>\<open>hash\<close> draws a fresh random salt on every call; the draw is the
  explicit first argument of \<open>ctx_hash\<close>.
\<close>

record crypt_context =
  ctx_hash :: "string \<Rightarrow> pystr \<Rightarrow> error + string"
  ctx_verify :: "pystr \<Rightarrow> string \<Rightarrow> error + bool"

definition hash_password :: "crypt_context \<Rightarrow> string \<Rightarrow> pystr \<Rightarrow> error + string" where
  "hash_password pwd_context salt password =
     (case encode_utf8 password of
        Inl e \<Rightarrow> Inl e
      | Inr encoded \<Rightarrow>
          let password_bytes = decode_utf8_ignore (take 72 encoded)
          in ctx_hash pwd_context salt password_bytes)"

definition verify_password :: "crypt_context \<Rightarrow> pystr \<Rightarrow> string \<Rightarrow> error + bool" where
  "verify_password pwd_context plain_password hashed_password =
     (case encode_utf8 plain_password of
        Inl e \<Rightarrow> Inl e
      | Inr encoded \<Rightarrow>
          let password_bytes = decode_utf8_ignore (take 72 encoded)
          in ctx_verify pwd_context password_bytes hashed_password)"



subsection \<open>A model of passlib's bcrypt context\<close>

text \<open>
  \<^verbatim>\<open>CryptContext(schemes=["bcrypt"], bcrypt__rounds=12)\<close>, as the library documents it. A
  bcrypt hash string is an identifier, two digits of cost and \<open>$\<close>, then the salt, then a
  31-character checksum. \<open>verify\<close> raises \<^verbatim>\<open>UnknownHashError\<close> (a \<^verbatim>\<open>ValueError\<close>) for a string
  that no configured scheme identifies, raises for an identified string with a broken
  layout, and otherwise recomputes the checksum from the salt in the string and compares.
  The digest itself is the parameter \<open>digest\<close>. The library's further checks on its inputs
  are not modelled.
\<close>

definition bcrypt_idents :: "string list" where
  "bcrypt_idents = [''$2$'', ''$2a$'', ''$2x$'', ''$2y$'', ''$2b$'']"

definition bcrypt_identify :: "string \<Rightarrow> bool" where
  "bcrypt_identify h \<longleftrightarrow> (\<exists>i \<in> set bcrypt_idents. take (length i) h = i)"

definition is_digit :: "char \<Rightarrow> bool" where
  "is_digit c \<longleftrightarrow> c \<in> set ''0123456789''"

definition checksum31 :: "string \<Rightarrow> string" where
  "checksum31 d = take 31 (d @ replicate 31 CHR ''.'')"

text \<open>Splits an identified hash string into its configuration with salt, and its checksum.\<close>

definition bcrypt_parse :: "string \<Rightarrow> (string \<times> string) option" where
  "bcrypt_parse h =
     (case filter (\<lambda>i. take (length i) h = i) bcrypt_idents of
        [] \<Rightarrow> None
      | i # _ \<Rightarrow>
          (case drop (length i) h of
             d1 # d2 # s # rest \<Rightarrow>
               if is_digit d1 \<and> is_digit d2 \<and> s = CHR ''$'' \<and> 31 \<le> length rest
               then Some (take (length h - 31) h, drop (length h - 31) h)
               else None
           | _ \<Rightarrow> None))"

definition passlib_bcrypt :: "(string \<Rightarrow> pystr \<Rightarrow> string) \<Rightarrow> crypt_context" where
  "passlib_bcrypt digest =
     \<lparr>ctx_hash = (\<lambda>salt secret.
         Inr ((''$2b$12$'' @ salt) @ checksum31 (digest (''$2b$12$'' @ salt) secret))),
      ctx_verify = (\<lambda>secret h.
         if \<not> bcrypt_identify h then Inl UnknownHashError
         else (case bcrypt_parse h of
                 None \<Rightarrow> Inl MalformedHashError
               | Some (config, chk) \<Rightarrow> Inr (checksum31 (digest config secret) = chk)))\<rparr>"

text \<open>A stand-in digest, used only to run the model on concrete inputs.\<close>

definition model_digest :: "string \<Rightarrow> pystr \<Rightarrow> string" where
  "model_digest config secret =
     map (\<lambda>c. if even c then CHR ''0'' else CHR ''1'') secret @ rev config"

text \<open>A password of 73 UTF-8 bytes: one ASCII letter and 24 three-byte syllables.\<close>

definition long_password :: pystr where
  "long_password = [0x61, 0xD55C, 0xD55C, 0xD55C, 0xD55C, 0xD55C, 0xD55C, 0xD55C, 0xD55C, 0xD55C, 0xD55C, 0xD55C, 0xD55C, 0xD55C, 0xD55C, 0xD55C, 0xD55C, 0xD55C, 0xD55C, 0xD55C, 0xD55C, 0xD55C, 0xD55C, 0xD55C, 0xD55C]"

section \<open>Tokens (auth/jwt\_handler.py)\<close>

text \<open>
  Times are whole seconds since the epoch: \<^verbatim>\<open>datetime.utcnow()\<close> is read by the second, as
  the token library does when it writes \<^verbatim>\<open>exp\<close> and \<^verbatim>\<open>iat\<close>. Every function that reads the
  clock takes the reading as the argument \<open>now\<close>; the readings taken while one request is
  served are the same instant.
\<close>

type_synonym time = int

record settings =
  secret_key :: string
  algorithm :: string
  access_token_expire_minutes :: int
  refresh_token_expire_days :: int

definition server_settings :: settings where  \<comment> \<open>the defaults of config.py\<close>
  "server_settings =
     \<lparr>secret_key = ''change-this-in-production-use-long-random-string'',
      algorithm = ''HS256'',
      access_token_expire_minutes = 30,
      refresh_token_expire_days = 7\<rparr>"

subsection \<open>The token library\<close>

text \<open>
  \<^verbatim>\<open>jwt.encode\<close> and \<^verbatim>\<open>jwt.decode\<close> belong to the third-party library python-jose. A token
  string is modelled by what it was made from: \<open>JWS alg key claims\<close> is the compact
  serialisation of the claims signed with \<open>key\<close> under algorithm \<open>alg\<close>, and \<open>Opaque s\<close> is
  any string that is no such serialisation. Two tokens are the same string exactly when they
  are the same term, and a signature verifies exactly under the key that made it. The claims
  are kept as the dictionary the code builds, in insertion order.

  \<open>jwt_decode\<close> performs the checks of \<^verbatim>\<open>jwt.decode\<close> with its default options on the claims
  this code writes: the algorithm, the signature, the types of \<^verbatim>\<open>exp\<close>, \<^verbatim>\<open>iat\<close>, \<^verbatim>\<open>sub\<close> and
  \<^verbatim>\<open>jti\<close>, and the expiry, which rejects a token whose \<^verbatim>\<open>exp\<close> lies before the current
  time. Every failure raises a subclass of \<^verbatim>\<open>JWTError\<close>; the cause is kept in the error.
\<close>

datatype jval = JStr string | JInt int

type_synonym claims = "(string \<times> jval) list"

datatype token = JWS string string claims | Opaque string

definition jwt_encode :: "claims \<Rightarrow> string \<Rightarrow> string \<Rightarrow> token" where
  "jwt_encode to_encode key alg = JWS alg key to_encode"

definition is_jint :: "jval option \<Rightarrow> bool" where
  "is_jint v = (case v of Some (JInt _) \<Rightarrow> True | _ \<Rightarrow> False)"

definition is_jstr :: "jval option \<Rightarrow> bool" where
  "is_jstr v = (case v of Some (JStr _) \<Rightarrow> True | _ \<Rightarrow> False)"

definition claims_well_typed :: "claims \<Rightarrow> bool" where
  "claims_well_typed c \<longleftrightarrow>
     (map_of c ''exp'' = None \<or> is_jint (map_of c ''exp'')) \<and>
     (map_of c ''iat'' = None \<or> is_jint (map_of c ''iat'')) \<and>
     (map_of c ''sub'' = None \<or> is_jstr (map_of c ''sub'')) \<and>
     (map_of c ''jti'' = None \<or> is_jstr (map_of c ''jti''))"

definition jwt_decode :: "token \<Rightarrow> string \<Rightarrow> string list \<Rightarrow> time \<Rightarrow> error + claims" where
  "jwt_decode tok key algorithms now =
     (case tok of
        Opaque _ \<Rightarrow> Inl (JWTError Malformed)
      | JWS alg k c \<Rightarrow>
          if alg \<notin> set algorithms \<or> k \<noteq> key then Inl (JWTError BadSignature)
          else if \<not> claims_well_typed c then Inl (JWTError BadClaims)
          else (case map_of c ''exp'' of
                  Some (JInt e) \<Rightarrow> if e < now then Inl (JWTError Expired) else Inr c
                | _ \<Rightarrow> Inr c))"

subsection \<open>Issuing and verifying\<close>

record token_payload =
  p_sub :: string
  p_exp :: time
  p_iat :: time
  p_type :: string
  p_jti :: "string option"

record token_pair =
  tp_access_token :: token
  tp_refresh_token :: token
  tp_token_type :: string
  tp_expires_in :: int

text \<open>\<^verbatim>\<open>str(subject)\<close> for a subject that is an \<^verbatim>\<open>int\<close> or already a \<^verbatim>\<open>str\<close>, and \<^verbatim>\<open>int(s)\<close> on a
  string of decimal digits with an optional sign (any other string raises \<^verbatim>\<open>ValueError\<close>; the
  server only ever signs subjects written by \<^verbatim>\<open>str\<close> of an integer).\<close>

datatype subject = IntSubject int | StrSubject string

definition digit_char :: "nat \<Rightarrow> char" where
  "digit_char d = ''0123456789'' ! d"

fun str_nat :: "nat \<Rightarrow> string" where
  "str_nat n = (if n < 10 then [digit_char n] else str_nat (n div 10) @ [digit_char (n mod 10)])"

declare str_nat.simps [simp del]

definition str_int :: "int \<Rightarrow> string" where
  "str_int i = (if i < 0 then CHR ''-'' # str_nat (nat (- i)) else str_nat (nat i))"

definition str_subject :: "subject \<Rightarrow> string" where
  "str_subject s = (case s of IntSubject i \<Rightarrow> str_int i | StrSubject x \<Rightarrow> x)"

definition digit_val :: "char \<Rightarrow> nat option" where
  "digit_val c = map_of (zip ''0123456789'' [0, 1, 2, 3, 4, 5, 6, 7, 8, 9]) c"

fun digits_val :: "nat \<Rightarrow> string \<Rightarrow> nat option" where
  "digits_val acc [] = Some acc"
| "digits_val acc (c # cs) =
     (case digit_val c of None \<Rightarrow> None | Some d \<Rightarrow> digits_val (acc * 10 + d) cs)"

definition py_int :: "string \<Rightarrow> int option" where
  "py_int s =
     (case s of
        [] \<Rightarrow> None
      | c # cs \<Rightarrow>
          if c = CHR ''-'' then (if cs = [] then None else map_option (\<lambda>n. - int n) (digits_val 0 cs))
          else if c = CHR ''+'' then (if cs = [] then None else map_option int (digits_val 0 cs))
          else map_option int (digits_val 0 s))"

text \<open>\<^verbatim>\<open>if expires_delta:\<close> is false for \<^verbatim>\<open>None\<close> and for a zero \<^verbatim>\<open>timedelta\<close>;
  \<^verbatim>\<open>if additional_claims:\<close> is false for \<^verbatim>\<open>None\<close> and for an empty dictionary. The
  \<^verbatim>\<open>dict.update\<close> overwrites a key in place and appends a new one.\<close>

definition dict_update :: "claims \<Rightarrow> claims \<Rightarrow> claims" where
  "dict_update d extra = fold (\<lambda>(k, v) acc. AList.update k v acc) extra d"

definition create_access_token ::
  "settings \<Rightarrow> time \<Rightarrow> subject \<Rightarrow> int option \<Rightarrow> claims option \<Rightarrow> token" where
  "create_access_token st now subj expires_delta additional_claims =
     (let expire = (case expires_delta of
                      Some d \<Rightarrow> if d \<noteq> 0 then now + d
                                else now + access_token_expire_minutes st * 60
                    | None \<Rightarrow> now + access_token_expire_minutes st * 60);
          to_encode = [(''sub'', JStr (str_subject subj)), (''exp'', JInt expire),
                       (''iat'', JInt now), (''type'', JStr ''access'')];
          to_encode' = (case additional_claims of
                          Some extra \<Rightarrow> if extra \<noteq> [] then dict_update to_encode extra
                                        else to_encode
                        | None \<Rightarrow> to_encode)
      in jwt_encode to_encode' (secret_key st) (algorithm st))"

text \<open>\<^verbatim>\<open>secrets.token_hex(16)\<close> is a random draw; it is the argument \<open>jti\<close>.\<close>

definition create_refresh_token ::
  "settings \<Rightarrow> time \<Rightarrow> string \<Rightarrow> subject \<Rightarrow> int option \<Rightarrow> token" where
  "create_refresh_token st now jti subj expires_delta =
     (let expire = (case expires_delta of
                      Some d \<Rightarrow> if d \<noteq> 0 then now + d
                                else now + refresh_token_expire_days st * 86400
                    | None \<Rightarrow> now + refresh_token_expire_days st * 86400);
          to_encode = [(''sub'', JStr (str_subject subj)), (''exp'', JInt expire),
                       (''iat'', JInt now), (''type'', JStr ''refresh''), (''jti'', JStr jti)]
      in jwt_encode to_encode (secret_key st) (algorithm st))"

definition create_token_pair :: "settings \<Rightarrow> time \<Rightarrow> string \<Rightarrow> subject \<Rightarrow> token_pair" where
  "create_token_pair st now jti subj =
     (let access_token = create_access_token st now subj None None;
          refresh_token = create_refresh_token st now jti subj None
      in \<lparr>tp_access_token = access_token, tp_refresh_token = refresh_token,
          tp_token_type = ''bearer'',
          tp_expires_in = access_token_expire_minutes st * 60\<rparr>)"

text \<open>\<^verbatim>\<open>TokenPayload(**payload)\<close>: the model validates the four required fields and the optional
  \<^verbatim>\<open>jti\<close>; a payload that lacks one raises \<^verbatim>\<open>ValidationError\<close>, which \<^verbatim>\<open>verify_token\<close> does not
  catch.\<close>

definition TokenPayload :: "claims \<Rightarrow> error + token_payload" where
  "TokenPayload payload =
     (case (map_of payload ''sub'', map_of payload ''exp'', map_of payload ''iat'',
            map_of payload ''type'') of
        (Some (JStr s), Some (JInt e), Some (JInt i), Some (JStr t)) \<Rightarrow>
          (case map_of payload ''jti'' of
             None \<Rightarrow> Inr \<lparr>p_sub = s, p_exp = e, p_iat = i, p_type = t, p_jti = None\<rparr>
           | Some (JStr j) \<Rightarrow> Inr \<lparr>p_sub = s, p_exp = e, p_iat = i, p_type = t, p_jti = Some j\<rparr>
           | Some (JInt _) \<Rightarrow> Inl ValidationError)
      | _ \<Rightarrow> Inl ValidationError)"

definition verify_token :: "settings \<Rightarrow> time \<Rightarrow> token \<Rightarrow> string \<Rightarrow> error + token_payload option" where
  "verify_token st now tok token_type =
     (case jwt_decode tok (secret_key st) [algorithm st] now of
        Inl (JWTError _) \<Rightarrow> Inr None
      | Inl e \<Rightarrow> Inl e
      | Inr payload \<Rightarrow>
          if map_of payload ''type'' \<noteq> Some (JStr token_type) then Inr None
          else (case TokenPayload payload of Inl e \<Rightarrow> Inl e | Inr p \<Rightarrow> Inr (Some p)))"

section \<open>The database (database/models.py)\<close>

text \<open>
  The two tables the authentication routes touch, each a list of rows in insertion order. Of
  a user the routes read and write the columns below; the profile columns play no part. A
  query's \<^verbatim>\<open>.first()\<close> is the first matching row. An attribute assignment followed by
  \<^verbatim>\<open>db.commit()\<close> is an update of the row with that primary key.
\<close>

record user =
  u_id :: int
  u_email :: string
  u_username :: string
  u_hashed_password :: string
  u_last_login :: "time option"
  u_failed_login_attempts :: int
  u_locked_until :: "time option"

record session =
  s_id :: int
  s_user_id :: int
  s_refresh_token :: token
  s_expires_at :: time
  s_client_ip :: "string option"
  s_user_agent :: "string option"
  s_is_active :: bool
  s_revoked_at :: "time option"
  s_created_at :: time

record database =
  users :: "user list"
  sessions :: "session list"

definition update_user :: "user \<Rightarrow> database \<Rightarrow> database" where
  "update_user u db = db\<lparr>users := map (\<lambda>x. if u_id x = u_id u then u else x) (users db)\<rparr>"

definition update_session :: "session \<Rightarrow> database \<Rightarrow> database" where
  "update_session s db = db\<lparr>sessions := map (\<lambda>x. if s_id x = s_id s then s else x) (sessions db)\<rparr>"

text \<open>
  \<^verbatim>\<open>Session(...)\<close>, \<^verbatim>\<open>db.add\<close> and the insert at commit: the key is the next integer, the
  columns with defaults (\<^verbatim>\<open>is_active\<close>, \<^verbatim>\<open>revoked_at\<close>, \<^verbatim>\<open>created_at\<close>) take them, and the
  \<^verbatim>\<open>unique=True\<close> constraint on \<^verbatim>\<open>refresh_token\<close> makes the commit fail with
  \<^verbatim>\<open>IntegrityError\<close> when the token is already stored.
\<close>

definition next_session_id :: "database \<Rightarrow> int" where
  "next_session_id db = fold max (map s_id (sessions db)) 0 + 1"

definition Session ::
  "database \<Rightarrow> time \<Rightarrow> int \<Rightarrow> token \<Rightarrow> time \<Rightarrow> string option \<Rightarrow> string option \<Rightarrow> session" where
  "Session db now user_id refresh_tok expires_at client_ip user_agent =
     \<lparr>s_id = next_session_id db, s_user_id = user_id, s_refresh_token = refresh_tok,
      s_expires_at = expires_at, s_client_ip = client_ip, s_user_agent = user_agent,
      s_is_active = True, s_revoked_at = None, s_created_at = now\<rparr>"

definition add_session :: "session \<Rightarrow> database \<Rightarrow> error + database" where
  "add_session s db =
     (if s_refresh_token s \<in> set (map s_refresh_token (sessions db)) then Inl IntegrityError
      else Inr (db\<lparr>sessions := sessions db @ [s]\<rparr>))"

text \<open>The constraints that models.py declares on the sessions table: \<^verbatim>\<open>id\<close> is the primary
  key, and \<^verbatim>\<open>refresh_token\<close> is unique.\<close>

definition table_ok :: "session list \<Rightarrow> bool" where
  "table_ok ss \<longleftrightarrow> distinct (map s_id ss) \<and> distinct (map s_refresh_token ss)"

section \<open>The authentication routes (api/auth\_routes.py)\<close>

text \<open>The texts of the responses, as the code points of the literals in the source.\<close>

definition detail_login_unknown_user :: pystr where  \<comment> \<open>auth\_routes.py line 124: login, no account matches\<close>
  "detail_login_unknown_user =
     [50500, 51060, 46356, 32, 46608, 45716, 32, 48708, 48128, 48264, 54840, 44032, 32, 50732,
      48148, 47476, 51648, 32, 50506, 49845, 45768, 45796]"

definition detail_login_locked :: pystr where  \<comment> \<open>auth\_routes.py line 131: login, account locked\<close>
  "detail_login_locked =
     [44228, 51221, 51060, 32, 51068, 49884, 51201, 51004, 47196, 32, 51104, 44220, 49845,
      45768, 45796, 46, 32, 45208, 51473, 50640, 32, 45796, 49884, 32, 49884, 46020, 54616,
      49464, 50836, 46]"

definition detail_login_bad_password :: pystr where  \<comment> \<open>auth\_routes.py line 148: login, wrong password\<close>
  "detail_login_bad_password =
     [50500, 51060, 46356, 32, 46608, 45716, 32, 48708, 48128, 48264, 54840, 44032, 32, 50732,
      48148, 47476, 51648, 32, 50506, 49845, 45768, 45796]"

definition detail_refresh_invalid :: pystr where  \<comment> \<open>auth\_routes.py line 191: refresh, token does not verify\<close>
  "detail_refresh_invalid =
     [50976, 54952, 54616, 51648, 32, 50506, 51008, 32, 47532, 54532, 47112, 49884, 32, 53664,
      53360, 51077, 45768, 45796]"

definition detail_refresh_no_session :: pystr where  \<comment> \<open>auth\_routes.py line 203: refresh, no active session\<close>
  "detail_refresh_no_session =
     [49464, 49496, 51060, 32, 47564, 47308, 46104, 50632, 49845, 45768, 45796, 46, 32, 45796,
      49884, 32, 47196, 44536, 51064, 54616, 49464, 50836, 46]"

definition message_logout :: pystr where  \<comment> \<open>auth\_routes.py line 246: logout\<close>
  "message_logout =
     [47196, 44536, 50500, 50883, 46104, 50632, 49845, 45768, 45796]"

record login_request =
  req_username :: string
  req_password :: pystr

text \<open>
  Each route takes the database and returns its response, or the exception it raises,
  together with the database as the request leaves it. An exception raised before
  \<^verbatim>\<open>db.commit()\<close> leaves the database as it was: the pending changes are discarded when the
  request's database session is closed.
\<close>

definition find_user :: "string \<Rightarrow> database \<Rightarrow> user option" where
  \<comment> \<open>the query of lines 117 to 119: e-mail or user name equal to the identifier\<close>
  "find_user ident db = find (\<lambda>u. u_email u = ident \<or> u_username u = ident) (users db)"

definition is_locked :: "user \<Rightarrow> time \<Rightarrow> bool" where
  \<comment> \<open>\<^verbatim>\<open>user.locked_until and user.locked_until > datetime.utcnow()\<close>\<close>
  "is_locked u now = (case u_locked_until u of Some l \<Rightarrow> l > now | None \<Rightarrow> False)"

definition login ::
  "crypt_context \<Rightarrow> settings \<Rightarrow> time \<Rightarrow> string \<Rightarrow> login_request \<Rightarrow> string option \<Rightarrow> string option
     \<Rightarrow> database \<Rightarrow> (error + token_pair) \<times> database" where
  "login pwd_context st now jti request client_ip user_agent db =
     (case find_user (req_username request) db of
        None \<Rightarrow> (Inl (HTTPException 401 detail_login_unknown_user), db)
      | Some user \<Rightarrow>
          if is_locked user now
          then (Inl (HTTPException 403 detail_login_locked), db)
          else
            (case verify_password pwd_context (req_password request) (u_hashed_password user) of
               Inl e \<Rightarrow> (Inl e, db)
             | Inr False \<Rightarrow>
                 let user1 = user\<lparr>u_failed_login_attempts := u_failed_login_attempts user + 1\<rparr>;
                     user2 = (if u_failed_login_attempts user1 \<ge> 5
                              then user1\<lparr>u_locked_until := Some (now + 30 * 60)\<rparr>
                              else user1)
                 in (Inl (HTTPException 401 detail_login_bad_password), update_user user2 db)
             | Inr True \<Rightarrow>
                 let user1 = user\<lparr>u_failed_login_attempts := 0, u_locked_until := None,
                                 u_last_login := Some now\<rparr>;
                     token_pair = create_token_pair st now jti (IntSubject (u_id user));
                     session = Session db now (u_id user) (tp_refresh_token token_pair) now
                                 client_ip user_agent
                 in (case add_session session (update_user user1 db) of
                       Inl e \<Rightarrow> (Inl e, db)
                     | Inr db' \<Rightarrow> (Inr token_pair, db'))))"

text \<open>The user row as the failure branch of \<open>login\<close> (lines 137 to 142) leaves it.\<close>

definition after_failure :: "user \<Rightarrow> time \<Rightarrow> user" where
  "after_failure u now =
     (if u_failed_login_attempts u + 1 \<ge> 5
      then u\<lparr>u_failed_login_attempts := u_failed_login_attempts u + 1,
             u_locked_until := Some (now + 1800)\<rparr>
      else u\<lparr>u_failed_login_attempts := u_failed_login_attempts u + 1\<rparr>)"

text \<open>A series of login requests for one identifier, each with its clock reading, its random
  draw and its password, threading the database.\<close>

fun login_calls ::
  "crypt_context \<Rightarrow> settings \<Rightarrow> string \<Rightarrow> (time \<times> string \<times> pystr) list \<Rightarrow> database
     \<Rightarrow> (error + token_pair) list \<times> database" where
  "login_calls pwd_context st ident [] db = ([], db)"
| "login_calls pwd_context st ident ((now, jti, password) # calls) db =
     (case login pwd_context st now jti \<lparr>req_username = ident, req_password = password\<rparr>
             None None db of
        (r, db') \<Rightarrow>
          (case login_calls pwd_context st ident calls db' of (rs, db'') \<Rightarrow> (r # rs, db'')))"

definition refresh_token ::
  "settings \<Rightarrow> time \<Rightarrow> string \<Rightarrow> token \<Rightarrow> database \<Rightarrow> (error + token_pair) \<times> database" where
  "refresh_token st now jti request_token db =
     (case verify_token st now request_token ''refresh'' of
        Inl e \<Rightarrow> (Inl e, db)
      | Inr None \<Rightarrow> (Inl (HTTPException 401 detail_refresh_invalid), db)
      | Inr (Some payload) \<Rightarrow>
          (case find (\<lambda>s. s_refresh_token s = request_token \<and> s_is_active s) (sessions db) of
             None \<Rightarrow> (Inl (HTTPException 401 detail_refresh_no_session), db)
           | Some session \<Rightarrow>
               let session1 = session\<lparr>s_is_active := False, s_revoked_at := Some now\<rparr>;
                   token_pair = create_token_pair st now jti (StrSubject (p_sub payload))
               in (case py_int (p_sub payload) of
                     None \<Rightarrow> (Inl ValueError, db)
                   | Some uid \<Rightarrow>
                       let new_session = Session db now uid (tp_refresh_token token_pair) now
                                           (s_client_ip session) (s_user_agent session)
                       in (case add_session new_session (update_session session1 db) of
                             Inl e \<Rightarrow> (Inl e, db)
                           | Inr db' \<Rightarrow> (Inr token_pair, db')))))"

definition logout :: "time \<Rightarrow> token \<Rightarrow> database \<Rightarrow> (error + pystr) \<times> database" where
  "logout now request_token db =
     (case find (\<lambda>s. s_refresh_token s = request_token) (sessions db) of
        None \<Rightarrow> (Inr message_logout, db)
      | Some session \<Rightarrow>
          (Inr message_logout,
           update_session (session\<lparr>s_is_active := False, s_revoked_at := Some now\<rparr>) db))"

text \<open>\<^verbatim>\<open>delete_my_account\<close> (api/user\_routes.py): the user row goes, and with it, by the
  \<^verbatim>\<open>delete-orphan\<close> cascade, the user's sessions.\<close>

definition delete_my_account :: "user \<Rightarrow> database \<Rightarrow> database" where
  "delete_my_account current_user db =
     \<lparr>users = filter (\<lambda>u. u_id u \<noteq> u_id current_user) (users db),
      sessions = filter (\<lambda>s. s_user_id s \<noteq> u_id current_user) (sessions db)\<rparr>"

text \<open>
  The states the session table can reach: it starts empty; the registration, profile and
  password routes write the users table only; the other steps are the routes above, with
  any input, at any time, with any random draw.
\<close>

inductive reachable :: "crypt_context \<Rightarrow> settings \<Rightarrow> database \<Rightarrow> bool"
  for pwd_context :: crypt_context and st :: settings where
  initial: "reachable pwd_context st \<lparr>users = us, sessions = []\<rparr>"
| users_written: "reachable pwd_context st db \<Longrightarrow> reachable pwd_context st (db\<lparr>users := us\<rparr>)"
| after_login: "reachable pwd_context st db \<Longrightarrow>
     reachable pwd_context st (snd (login pwd_context st now jti request client_ip user_agent db))"
| after_refresh: "reachable pwd_context st db \<Longrightarrow>
     reachable pwd_context st (snd (refresh_token st now jti request_token db))"
| after_logout: "reachable pwd_context st db \<Longrightarrow>
     reachable pwd_context st (snd (logout now request_token db))"
| after_delete: "reachable pwd_context st db \<Longrightarrow>
     reachable pwd_context st (delete_my_account current_user db)"

text \<open>
  The states that follow a given state \<open>db0\<close> by further requests, none of which issues the
  refresh token \<open>t\<close> again. A refresh token carries the random draw \<^verbatim>\<open>jti\<close>, so issuing
  the same string twice means that the draw, the second and the subject all coincide.
\<close>

inductive later_state :: "crypt_context \<Rightarrow> settings \<Rightarrow> token \<Rightarrow> database \<Rightarrow> database \<Rightarrow> bool"
  for pwd_context :: crypt_context and st :: settings and t :: token and db0 :: database where
  same: "later_state pwd_context st t db0 db0"
| users_written: "later_state pwd_context st t db0 db \<Longrightarrow>
     later_state pwd_context st t db0 (db\<lparr>users := us\<rparr>)"
| after_login: "later_state pwd_context st t db0 db \<Longrightarrow>
     (\<forall>pair. fst (login pwd_context st now jti request client_ip user_agent db) = Inr pair
        \<longrightarrow> tp_refresh_token pair \<noteq> t) \<Longrightarrow>
     later_state pwd_context st t db0
       (snd (login pwd_context st now jti request client_ip user_agent db))"
| after_refresh: "later_state pwd_context st t db0 db \<Longrightarrow>
     (\<forall>pair. fst (refresh_token st now jti request_token db) = Inr pair
        \<longrightarrow> tp_refresh_token pair \<noteq> t) \<Longrightarrow>
     later_state pwd_context st t db0 (snd (refresh_token st now jti request_token db))"
| after_logout: "later_state pwd_context st t db0 db \<Longrightarrow>
     later_state pwd_context st t db0 (snd (logout now request_token db))"
| after_delete: "later_state pwd_context st t db0 db \<Longrightarrow>
     later_state pwd_context st t db0 (delete_my_account current_user db)"

section \<open>A concrete scenario\<close>

text \<open>
  One registered user, \<open>alice\<close>, whose stored hash is what \<open>hash_password\<close> gives for the
  password \<^verbatim>\<open>pw\<close> under the model context. The scenario is used to run the routes on
  concrete inputs.
\<close>

definition model_context :: crypt_context where
  "model_context = passlib_bcrypt model_digest"

definition alice :: user where
  "alice =
     \<lparr>u_id = 1, u_email = ''alice@example.com'', u_username = ''alice'',
      u_hashed_password = ''$2b$12$saltsaltsaltsaltsalt220122tlastlastlastlastlas$21$b2$'',
      u_last_login = None, u_failed_login_attempts = 0, u_locked_until = None\<rparr>"

definition alice_password :: pystr where
  "alice_password = [0x70, 0x77]"

definition other_password :: pystr where
  "other_password = [0x70, 0x78]"

definition alice_db :: database where
  "alice_db = \<lparr>users = [alice], sessions = []\<rparr>"

definition five_failures :: "(time \<times> string \<times> pystr) list" where
  "five_failures =
     [(10, ''j1'', other_password), (20, ''j2'', other_password), (30, ''j3'', other_password),
      (40, ''j4'', other_password), (50, ''j5'', other_password)]"

definition locked_db :: database where
  "locked_db = snd (login_calls model_context server_settings ''alice'' five_failures alice_db)"

text \<open>A successful login of \<open>alice\<close> at time 1000, the token pair it returns, and the
  database it leaves.\<close>

definition alice_pair :: token_pair where
  "alice_pair = create_token_pair server_settings 1000 ''f00d'' (IntSubject 1)"

definition logged_in_db :: database where
  "logged_in_db =
     snd (login model_context server_settings 1000 ''f00d''
            \<lparr>req_username = ''alice'', req_password = alice_password\<rparr>
            (Some ''10.0.0.7'') None alice_db)"

text \<open>The \<^verbatim>\<open>exp\<close> claim of a token, when it has one.\<close>

definition token_exp :: "token \<Rightarrow> time option" where
  "token_exp tok =
     (case tok of
        JWS _ _ c \<Rightarrow> (case map_of c ''exp'' of Some (JInt e) \<Rightarrow> Some e | _ \<Rightarrow> None)
      | Opaque _ \<Rightarrow> None)"

text \<open>The database after a refresh with that pair's refresh token at time 2000.\<close>

definition rotated_db :: database where
  "rotated_db =
     snd (refresh_token server_settings 2000 ''beef'' (tp_refresh_token alice_pair) logged_in_db)"

text \<open>The database after \<open>alice\<close> has then logged in again at time 2500, and a password
  that is no text: a lone surrogate.\<close>

definition relogged_db :: database where
  "relogged_db =
     snd (login model_context server_settings 2500 ''d00d''
            \<lparr>req_username = ''alice'', req_password = alice_password\<rparr> None None rotated_db)"

definition surrogate_password :: pystr where
  "surrogate_password = [0xD800]"

section \<open>Properties of the rate limiter\<close>

lemma is_allowed_params:
  "requests (snd (is_allowed rl k now)) = requests rl"
  "window (snd (is_allowed rl k now)) = window rl"
  by (simp_all add: is_allowed_def clean_old_requests_def Let_def)

lemma is_allowed_storage_key:
  "storage (snd (is_allowed rl k now)) k =
     (let kept = storage (clean_old_requests rl k now) k
      in if requests rl \<le> int (length kept) then kept else kept @ [now])"
  by (simp add: is_allowed_def clean_old_requests_def Let_def)

lemma is_allowed_storage_other:
  "k' \<noteq> k \<Longrightarrow> storage (snd (is_allowed rl k now)) k' = storage rl k'"
  by (simp add: is_allowed_def clean_old_requests_def Let_def)

lemma is_allowed_admit_iff:
  "fst (fst (is_allowed rl k now)) \<longleftrightarrow>
     int (length (storage (clean_old_requests rl k now) k)) < requests rl"
  by (auto simp add: is_allowed_def clean_old_requests_def Let_def)

lemma is_allowed_denied:
  assumes "requests rl \<le> int (length (storage (clean_old_requests rl k now) k))"
  shows "fst (is_allowed rl k now) =
           (False, \<lparr>limit = requests rl, remaining = 0, reset = int_of_float now + window rl\<rparr>)"
    and "snd (is_allowed rl k now) = clean_old_requests rl k now"
  using assms by (auto simp add: is_allowed_def clean_old_requests_def Let_def)

lemma is_allowed_admitted:
  assumes "int (length (storage (clean_old_requests rl k now) k)) < requests rl"
  shows "fst (is_allowed rl k now) =
           (True, \<lparr>limit = requests rl,
                   remaining = requests rl - int (length (storage (clean_old_requests rl k now) k)) - 1,
                   reset = int_of_float now + window rl\<rparr>)"
    and "storage (snd (is_allowed rl k now)) k = storage (clean_old_requests rl k now) k @ [now]"
  using assms by (auto simp add: is_allowed_def clean_old_requests_def Let_def)

lemma clean_old_requests_key:
  "storage (clean_old_requests rl k now) k =
     filter (\<lambda>t. now - t < real_of_int (window rl)) (storage rl k)"
  by (simp add: clean_old_requests_def)

lemma clean_length_le:
  "length (storage (clean_old_requests rl k now) k) \<le> length (storage rl k)"
  by (simp add: clean_old_requests_key)

lemma allow_calls_first_admitted:
  "int (length (storage rl k)) + int (length ts) \<le> requests rl \<Longrightarrow>
     \<forall>r \<in> set (fst (allow_calls rl k ts)). fst r"
proof (induction ts arbitrary: rl)
  case Nil
  then show ?case by simp
next
  case (Cons t ts)
  have len: "int (length (storage (clean_old_requests rl k t) k)) < requests rl"
    using Cons.prems clean_length_le [of rl k t] by simp
  have adm: "fst (fst (is_allowed rl k t))"
    using len by (simp add: is_allowed_admit_iff)
  let ?rl' = "snd (is_allowed rl k t)"
  have "length (storage ?rl' k) \<le> Suc (length (storage rl k))"
    using is_allowed_admitted(2) [OF len] clean_length_le [of rl k t] by simp
  then have "int (length (storage ?rl' k)) + int (length ts) \<le> requests ?rl'"
    using Cons.prems by (simp add: is_allowed_params)
  from Cons.IH [OF this] adm show ?case
    by (simp add: split_beta)
qed

lemma allow_calls_history:
  "sorted (storage rl k @ ts) \<Longrightarrow>
   \<forall>t \<in> set (storage rl k @ ts). last (storage rl k @ ts) - t < real_of_int (window rl) \<Longrightarrow>
   int (length (storage rl k)) + int (length ts) \<le> requests rl \<Longrightarrow>
   storage (snd (allow_calls rl k ts)) k = storage rl k @ ts"
proof (induction ts arbitrary: rl)
  case Nil
  then show ?case by simp
next
  case (Cons t ts)
  let ?h = "storage rl k"
  have tle: "t \<le> last (?h @ t # ts)"
    using Cons.prems(1) by (cases ts rule: rev_cases) (auto simp: sorted_append)
  have "\<forall>x \<in> set ?h. t - x < real_of_int (window rl)"
  proof
    fix x assume "x \<in> set ?h"
    then have "last (?h @ t # ts) - x < real_of_int (window rl)" using Cons.prems(2) by simp
    with tle show "t - x < real_of_int (window rl)" by linarith
  qed
  then have kept: "storage (clean_old_requests rl k t) k = ?h"
    by (simp add: clean_old_requests_key)
  have len: "int (length (storage (clean_old_requests rl k t) k)) < requests rl"
    using Cons.prems(3) kept by simp
  let ?rl' = "snd (is_allowed rl k t)"
  have st: "storage ?rl' k = ?h @ [t]"
    using is_allowed_admitted(2) [OF len] kept by simp
  have "storage (snd (allow_calls ?rl' k ts)) k = storage ?rl' k @ ts"
  proof (rule Cons.IH)
    show "sorted (storage ?rl' k @ ts)" using Cons.prems(1) st by simp
    show "\<forall>x \<in> set (storage ?rl' k @ ts). last (storage ?rl' k @ ts) - x < real_of_int (window ?rl')"
      using Cons.prems(2) st by (simp add: is_allowed_params)
    show "int (length (storage ?rl' k)) + int (length ts) \<le> requests ?rl'"
      using Cons.prems(3) st by (simp add: is_allowed_params)
  qed
  then show ?case using st by (simp add: split_beta)
qed

lemma allow_calls_params:
  "requests (snd (allow_calls rl k ts)) = requests rl"
  "window (snd (allow_calls rl k ts)) = window rl"
  by (induction ts arbitrary: rl) (simp_all add: split_beta is_allowed_params)

lemma allow_calls_nonempty_positive:
  "(storage rl k \<noteq> [] \<longrightarrow> 0 < requests rl) \<Longrightarrow>
     storage (snd (allow_calls rl k ts)) k \<noteq> [] \<longrightarrow> 0 < requests rl"
proof (induction ts arbitrary: rl)
  case Nil
  then show ?case by simp
next
  case (Cons t ts)
  let ?rl' = "snd (is_allowed rl k t)"
  have "storage ?rl' k \<noteq> [] \<longrightarrow> 0 < requests ?rl'"
  proof
    assume ne: "storage ?rl' k \<noteq> []"
    show "0 < requests ?rl'"
    proof (cases "requests rl \<le> int (length (storage (clean_old_requests rl k t) k))")
      case True
      then have "storage ?rl' k = storage (clean_old_requests rl k t) k"
        by (simp add: is_allowed_storage_key)
      then have "storage rl k \<noteq> []"
        using ne by (auto simp add: clean_old_requests_key)
      then show ?thesis using Cons.prems by (simp add: is_allowed_params)
    next
      case False
      then have "0 < requests rl" by linarith
      then show ?thesis by (simp add: is_allowed_params)
    qed
  qed
  from Cons.IH [OF this] show ?case
    by (simp add: split_beta is_allowed_params)
qed

lemma is_allowed_after_window:
  assumes "0 < requests rl" and "\<forall>t \<in> set (storage rl k). real_of_int (window rl) \<le> now - t"
  shows "fst (fst (is_allowed rl k now)) \<and> storage (snd (is_allowed rl k now)) k = [now]"
proof -
  have "\<forall>t \<in> set (storage rl k). \<not> now - t < real_of_int (window rl)"
    using assms(2) by (simp add: not_less)
  then have e: "storage (clean_old_requests rl k now) k = []"
    by (simp add: clean_old_requests_key filter_empty_conv)
  then have "int (length (storage (clean_old_requests rl k now) k)) < requests rl"
    using assms(1) by simp
  from is_allowed_admitted [OF this] e show ?thesis by simp
qed

text \<open>
  Claim C5. For a limiter with limit \<open>n\<close> and window \<open>w\<close> and any key: entries whose age
  is not below \<open>w\<close> are pruned before the admission check; the request is admitted exactly
  when fewer than \<open>n\<close> timestamps remain; a timestamp is appended only on admission; a
  denied request reports \<open>remaining = 0\<close> and leaves the pruned history as it is; the first
  \<open>n\<close> requests to a fresh limiter are admitted; a further request while those \<open>n\<close>
  timestamps are still inside the window is denied; and once every recorded timestamp is at
  least \<open>w\<close> old, the next request is admitted again (in any state of a limiter with a
  positive limit, and after any series of calls to a fresh limiter that left a timestamp).
\<close>

theorem rate_limiter_sliding_window:
  fixes rl :: rate_limiter and k :: string and now t' :: real and n w :: int and ts :: "real list"
  shows
  "(storage (clean_old_requests rl k now) k =
       filter (\<lambda>t. now - t < real_of_int (window rl)) (storage rl k))
   \<and> (fst (fst (is_allowed rl k now)) \<longleftrightarrow>
         int (length (storage (clean_old_requests rl k now) k)) < requests rl)
   \<and> (storage (snd (is_allowed rl k now)) k =
         (if fst (fst (is_allowed rl k now))
          then storage (clean_old_requests rl k now) k @ [now]
          else storage (clean_old_requests rl k now) k))
   \<and> (requests rl \<le> int (length (storage (clean_old_requests rl k now) k)) \<longrightarrow>
         fst (is_allowed rl k now) =
           (False, \<lparr>limit = requests rl, remaining = 0, reset = int_of_float now + window rl\<rparr>))
   \<and> (int (length ts) \<le> n \<longrightarrow>
         (\<forall>r \<in> set (fst (allow_calls (RateLimiter n w) k ts)). fst r))
   \<and> (int (length ts) = n \<and> sorted (ts @ [t']) \<and> (\<forall>t \<in> set ts. t' - t < real_of_int w) \<longrightarrow>
         fst (is_allowed (snd (allow_calls (RateLimiter n w) k ts)) k t') =
           (False, \<lparr>limit = n, remaining = 0, reset = int_of_float t' + w\<rparr>)
         \<and> storage (snd (is_allowed (snd (allow_calls (RateLimiter n w) k ts)) k t')) k = ts)
   \<and> (0 < requests rl \<and> (\<forall>t \<in> set (storage rl k). real_of_int (window rl) \<le> now - t) \<longrightarrow>
         fst (fst (is_allowed rl k now)) \<and> storage (snd (is_allowed rl k now)) k = [now])
   \<and> (storage (snd (allow_calls (RateLimiter n w) k ts)) k \<noteq> []
       \<and> (\<forall>t \<in> set (storage (snd (allow_calls (RateLimiter n w) k ts)) k).
             real_of_int w \<le> now - t) \<longrightarrow>
         fst (fst (is_allowed (snd (allow_calls (RateLimiter n w) k ts)) k now)))"
proof -
  let ?kept = "storage (clean_old_requests rl k now) k"
  have c1: "?kept = filter (\<lambda>t. now - t < real_of_int (window rl)) (storage rl k)"
    by (rule clean_old_requests_key)
  have c2: "fst (fst (is_allowed rl k now)) \<longleftrightarrow> int (length ?kept) < requests rl"
    by (rule is_allowed_admit_iff)
  have c3: "storage (snd (is_allowed rl k now)) k =
         (if fst (fst (is_allowed rl k now)) then ?kept @ [now] else ?kept)"
    unfolding c2 by (simp add: is_allowed_storage_key Let_def)
  have c4: "requests rl \<le> int (length ?kept) \<longrightarrow>
         fst (is_allowed rl k now) =
           (False, \<lparr>limit = requests rl, remaining = 0, reset = int_of_float now + window rl\<rparr>)"
    using is_allowed_denied(1) by blast
  have c5: "int (length ts) \<le> n \<longrightarrow>
         (\<forall>r \<in> set (fst (allow_calls (RateLimiter n w) k ts)). fst r)"
  proof
    assume "int (length ts) \<le> n"
    then have "int (length (storage (RateLimiter n w) k)) + int (length ts) \<le> requests (RateLimiter n w)"
      by (simp add: RateLimiter_def)
    then show "\<forall>r \<in> set (fst (allow_calls (RateLimiter n w) k ts)). fst r"
      by (rule allow_calls_first_admitted)
  qed
  have c6: "int (length ts) = n \<and> sorted (ts @ [t']) \<and> (\<forall>t \<in> set ts. t' - t < real_of_int w) \<longrightarrow>
         fst (is_allowed (snd (allow_calls (RateLimiter n w) k ts)) k t') =
           (False, \<lparr>limit = n, remaining = 0, reset = int_of_float t' + w\<rparr>)
         \<and> storage (snd (is_allowed (snd (allow_calls (RateLimiter n w) k ts)) k t')) k = ts"
  proof
    assume a: "int (length ts) = n \<and> sorted (ts @ [t']) \<and> (\<forall>t \<in> set ts. t' - t < real_of_int w)"
    let ?init = "RateLimiter n w"
    let ?cur = "snd (allow_calls ?init k ts)"
    have s0: "storage ?init k = []" "window ?init = w" "requests ?init = n"
      by (simp_all add: RateLimiter_def)
    have srt: "sorted ts" using a by (simp add: sorted_append)
    have inw: "\<forall>t \<in> set ts. last ts - t < real_of_int w"
    proof
      fix t assume t: "t \<in> set ts"
      then have "ts \<noteq> []" by auto
      then have "last ts \<in> set ts" by simp
      then have "last ts \<le> t'" using a by (simp add: sorted_append)
      moreover have "t' - t < real_of_int w" using a t by simp
      ultimately show "last ts - t < real_of_int w" by linarith
    qed
    have hist: "storage ?cur k = storage ?init k @ ts"
      by (rule allow_calls_history) (use srt inw a in \<open>simp_all add: s0\<close>)
    then have hist': "storage ?cur k = ts" by (simp add: s0)
    have pr: "requests ?cur = n" "window ?cur = w"
      by (simp_all add: allow_calls_params s0)
    have kept: "storage (clean_old_requests ?cur k t') k = ts"
      using a by (simp add: clean_old_requests_key hist' pr)
    have full: "requests ?cur \<le> int (length (storage (clean_old_requests ?cur k t') k))"
      using a by (simp add: kept pr)
    show "fst (is_allowed ?cur k t') = (False, \<lparr>limit = n, remaining = 0, reset = int_of_float t' + w\<rparr>)
         \<and> storage (snd (is_allowed ?cur k t')) k = ts"
      using is_allowed_denied [OF full] by (simp add: pr kept)
  qed
  have c7: "0 < requests rl \<and> (\<forall>t \<in> set (storage rl k). real_of_int (window rl) \<le> now - t) \<longrightarrow>
         fst (fst (is_allowed rl k now)) \<and> storage (snd (is_allowed rl k now)) k = [now]"
    using is_allowed_after_window [of rl k now] by blast
  have c8: "storage (snd (allow_calls (RateLimiter n w) k ts)) k \<noteq> []
       \<and> (\<forall>t \<in> set (storage (snd (allow_calls (RateLimiter n w) k ts)) k).
             real_of_int w \<le> now - t) \<longrightarrow>
         fst (fst (is_allowed (snd (allow_calls (RateLimiter n w) k ts)) k now))"
  proof
    let ?cur = "snd (allow_calls (RateLimiter n w) k ts)"
    assume a: "storage ?cur k \<noteq> []
       \<and> (\<forall>t \<in> set (storage ?cur k). real_of_int w \<le> now - t)"
    have pr: "requests ?cur = n" "window ?cur = w"
      by (simp_all add: allow_calls_params RateLimiter_def)
    have "storage (RateLimiter n w) k \<noteq> [] \<longrightarrow> 0 < requests (RateLimiter n w)"
      by (simp add: RateLimiter_def)
    from allow_calls_nonempty_positive [OF this, of ts] a
    have "0 < requests (RateLimiter n w)" by blast
    then have pos: "0 < requests ?cur" by (simp only: allow_calls_params)
    have old: "\<forall>t \<in> set (storage ?cur k). real_of_int (window ?cur) \<le> now - t"
      using a by (simp add: pr)
    from is_allowed_after_window [OF pos old]
    show "fst (fst (is_allowed ?cur k now))" by blast
  qed
  from c1 c2 c3 c4 c5 c6 c7 c8 show ?thesis by blast
qed

theorem rate_limiter_sliding_window_witness:
  "map fst (fst (allow_calls (RateLimiter 3 60) ''k'' [0, 1, 2])) = [True, True, True]
   \<and> fst (is_allowed (snd (allow_calls (RateLimiter 3 60) ''k'' [0, 1, 2])) ''k'' 3) =
        (False, \<lparr>limit = 3, remaining = 0, reset = 63\<rparr>)
   \<and> storage (snd (is_allowed (snd (allow_calls (RateLimiter 3 60) ''k'' [0, 1, 2])) ''k'' 3)) ''k''
        = [0, 1, 2]
   \<and> fst (fst (is_allowed
        (snd (is_allowed (snd (allow_calls (RateLimiter 3 60) ''k'' [0, 1, 2])) ''k'' 3)) ''k'' 62))
   \<and> fst (fst (is_allowed (snd (allow_calls (RateLimiter 3 60) ''k'' [0, 1, 2])) ''k'' 62))"
proof -
  let ?rl3 = "snd (allow_calls (RateLimiter 3 60) ''k'' [0, 1, 2])"
  let ?rl4 = "snd (is_allowed ?rl3 ''k'' 3)"
  note T = rate_limiter_sliding_window
    [where rl = ?rl4 and k = "''k''" and now = 62 and ts = "[0, 1, 2]" and n = 3 and w = 60 and t' = 3]
  have h1: "int (length [0::real, 1, 2]) \<le> 3" by simp
  have h2: "int (length [0::real, 1, 2]) = 3 \<and> sorted ([0::real, 1, 2] @ [3])
            \<and> (\<forall>t \<in> set [0::real, 1, 2]. 3 - t < real_of_int 60)" by simp
  from T h1 have a: "\<forall>r \<in> set (fst (allow_calls (RateLimiter 3 60) ''k'' [0, 1, 2])). fst r"
    by blast
  from T h2 have b: "fst (is_allowed ?rl3 ''k'' 3) = (False, \<lparr>limit = 3, remaining = 0, reset = int_of_float 3 + 60\<rparr>)
      \<and> storage ?rl4 ''k'' = [0, 1, 2]" by blast
  have p: "requests ?rl4 = 3" "window ?rl4 = 60"
    by (simp_all only: is_allowed_params allow_calls_params)
       (simp_all add: RateLimiter_def)
  have st: "storage ?rl4 ''k'' = [0, 1, 2]" using b by blast
  have h3: "0 < requests ?rl4 \<and> (\<forall>t \<in> set (storage ?rl4 ''k''). real_of_int (window ?rl4) \<le> 62 - t)"
    unfolding p st by simp
  from T h3 have c: "fst (fst (is_allowed ?rl4 ''k'' 62))" by blast
  have m: "map fst (fst (allow_calls (RateLimiter 3 60) ''k'' [0, 1, 2])) = [True, True, True]"
    using a by (simp add: split_beta)
  have "storage ?rl3 ''k'' = storage (RateLimiter 3 60) ''k'' @ [0, 1, 2]"
    by (rule allow_calls_history) (simp_all add: RateLimiter_def)
  then have h4: "storage ?rl3 ''k'' \<noteq> []
      \<and> (\<forall>t \<in> set (storage ?rl3 ''k''). real_of_int 60 \<le> 62 - t)"
    by (simp add: RateLimiter_def)
  from T h4 have d: "fst (fst (is_allowed ?rl3 ''k'' 62))" by blast
  from m b c d show ?thesis by (simp add: int_of_float_def)
qed

section \<open>Properties of password hashing\<close>




lemma bcrypt_parse_identify: "bcrypt_parse h \<noteq> None \<Longrightarrow> bcrypt_identify h"
proof -
  assume a: "bcrypt_parse h \<noteq> None"
  have "filter (\<lambda>i. take (length i) h = i) bcrypt_idents \<noteq> []"
    using a by (auto simp add: bcrypt_parse_def)
  then obtain i where "i \<in> set bcrypt_idents" "take (length i) h = i"
    by (metis (mono_tags, lifting) filter_False)
  then show ?thesis unfolding bcrypt_identify_def by blast
qed




lemma verify_password_encodable:
  "encodable p \<Longrightarrow>
     verify_password c p h = ctx_verify c (decode_utf8_ignore (take 72 (concat (map utf8_char p)))) h"
  by (simp add: verify_password_def encode_utf8_def)

lemma verify_password_unencodable:
  "\<not> encodable p \<Longrightarrow> verify_password c p h = Inl UnicodeEncodeError"
  by (simp add: verify_password_def encode_utf8_def)


lemma long_password_truncated:
  "decode_utf8_ignore (take 72 (concat (map utf8_char long_password))) = butlast long_password"
  by (simp add: long_password_def utf8_char_def decode_step_def is_cont_def second_ok_def)

lemma long_password_bytes: "length (concat (map utf8_char long_password)) = 73"
  by (simp add: long_password_def utf8_char_def)


text \<open>
  Claim C7, as amended. \<open>verify_password\<close> has no error handling of its own. For a
  plaintext that has a UTF-8 encoding it returns a boolean whenever the primitive's verifier
  returns one, in particular for every well-formed bcrypt hash string; for a hash string
  that the bcrypt scheme does not identify, the library's verifier raises
  \<^verbatim>\<open>UnknownHashError\<close>, and for an identified string with a broken layout it raises as well,
  and \<open>verify_password\<close> passes the error on instead of returning false. A plaintext
  without a UTF-8 encoding makes the encoding step itself raise.
\<close>

theorem verify_password_outcome:
  "(encodable p \<and> \<not> bcrypt_identify h \<longrightarrow>
      verify_password (passlib_bcrypt d) p h = Inl UnknownHashError)
   \<and> (encodable p \<and> bcrypt_identify h \<and> bcrypt_parse h = None \<longrightarrow>
      verify_password (passlib_bcrypt d) p h = Inl MalformedHashError)
   \<and> (encodable p \<and> bcrypt_parse h \<noteq> None \<longrightarrow>
      (\<exists>b. verify_password (passlib_bcrypt d) p h = Inr b))
   \<and> (encodable p \<and> (\<forall>s. \<exists>b. ctx_verify c s h = Inr b) \<longrightarrow>
      (\<exists>b. verify_password c p h = Inr b))
   \<and> (\<not> encodable p \<longrightarrow> verify_password c p h = Inl UnicodeEncodeError)"
proof (intro conjI impI)
  assume "encodable p \<and> \<not> bcrypt_identify h"
  then show "verify_password (passlib_bcrypt d) p h = Inl UnknownHashError"
    by (simp add: verify_password_encodable passlib_bcrypt_def)
next
  assume "encodable p \<and> bcrypt_identify h \<and> bcrypt_parse h = None"
  then show "verify_password (passlib_bcrypt d) p h = Inl MalformedHashError"
    by (simp add: verify_password_encodable passlib_bcrypt_def)
next
  assume a: "encodable p \<and> bcrypt_parse h \<noteq> None"
  then have "bcrypt_identify h" using bcrypt_parse_identify by blast
  then show "\<exists>b. verify_password (passlib_bcrypt d) p h = Inr b"
    using a by (auto simp add: verify_password_encodable passlib_bcrypt_def)
next
  assume "encodable p \<and> (\<forall>s. \<exists>b. ctx_verify c s h = Inr b)"
  then show "\<exists>b. verify_password c p h = Inr b"
    by (simp add: verify_password_encodable)
next
  assume "\<not> encodable p"
  then show "verify_password c p h = Inl UnicodeEncodeError"
    by (rule verify_password_unencodable)
qed

text \<open>
  Claim C7 as stated fails: on a hash string that is no bcrypt hash, \<open>verify_password\<close>
  raises instead of returning false.
\<close>

theorem verify_password_malformed_counterexample:
  "verify_password (passlib_bcrypt model_digest) [0x70, 0x77] ''not-a-bcrypt-hash''
     = Inl UnknownHashError"
  by (simp add: verify_password_def encode_utf8_def encodable_def passlib_bcrypt_def
      bcrypt_identify_def bcrypt_idents_def)

theorem verify_password_outcome_witness:
  "encodable [0x70, 0x77]
   \<and> \<not> bcrypt_identify ''not-a-bcrypt-hash''
   \<and> verify_password (passlib_bcrypt model_digest) [0x70, 0x77] ''not-a-bcrypt-hash''
        = Inl UnknownHashError
   \<and> bcrypt_identify ''$2b$12$short'' \<and> bcrypt_parse ''$2b$12$short'' = None
   \<and> verify_password (passlib_bcrypt model_digest) [0x70, 0x77] ''$2b$12$short''
        = Inl MalformedHashError
   \<and> bcrypt_parse (u_hashed_password alice) \<noteq> None
   \<and> (\<exists>b. verify_password (passlib_bcrypt model_digest) [0x70, 0x77] (u_hashed_password alice)
          = Inr b)"
proof -
  have e: "encodable [0x70, 0x77]" by (simp add: encodable_def)
  have i1: "\<not> bcrypt_identify ''not-a-bcrypt-hash''"
    by (simp add: bcrypt_identify_def bcrypt_idents_def)
  have i2: "bcrypt_identify ''$2b$12$short'' \<and> bcrypt_parse ''$2b$12$short'' = None"
    by (simp add: bcrypt_identify_def bcrypt_idents_def bcrypt_parse_def)
  from verify_password_outcome [where p = "[0x70, 0x77]" and h = "''not-a-bcrypt-hash''"
      and d = model_digest] e i1
  have r1: "verify_password (passlib_bcrypt model_digest) [0x70, 0x77] ''not-a-bcrypt-hash''
        = Inl UnknownHashError" by blast
  from verify_password_outcome [where p = "[0x70, 0x77]" and h = "''$2b$12$short''"
      and d = model_digest] e i2
  have r2: "verify_password (passlib_bcrypt model_digest) [0x70, 0x77] ''$2b$12$short''
        = Inl MalformedHashError" by blast
  have i3: "bcrypt_parse (u_hashed_password alice) \<noteq> None"
    by (simp add: alice_def bcrypt_parse_def bcrypt_idents_def is_digit_def)
  from verify_password_outcome [where p = "[0x70, 0x77]" and h = "u_hashed_password alice"
      and d = model_digest] e i3
  have r3: "\<exists>b. verify_password (passlib_bcrypt model_digest) [0x70, 0x77] (u_hashed_password alice)
          = Inr b" by blast
  from e i1 i2 i3 r1 r2 r3 show ?thesis by blast
qed

section \<open>Properties of token verification\<close>

lemma map_of_dict_update_other:
  "k \<notin> fst ` set extra \<Longrightarrow> map_of (dict_update d extra) k = map_of d k"
  unfolding dict_update_def
  by (induction extra arbitrary: d) (auto simp add: update_conv')

lemma verify_token_wrong_type:
  "map_of c ''type'' \<noteq> Some (JStr token_type) \<Longrightarrow>
     verify_token st now (JWS alg k c) token_type = Inr None"
  by (simp add: verify_token_def jwt_decode_def split: option.split jval.split)

lemma verify_token_bad_signature:
  "k \<noteq> secret_key st \<or> alg \<noteq> algorithm st \<Longrightarrow>
     verify_token st now (JWS alg k c) token_type = Inr None"
  by (auto simp add: verify_token_def jwt_decode_def)

lemma verify_token_opaque: "verify_token st now (Opaque s) token_type = Inr None"
  by (simp add: verify_token_def jwt_decode_def)

lemma verify_token_expired:
  "map_of c ''exp'' = Some (JInt e) \<Longrightarrow> e < now \<Longrightarrow>
     verify_token st now (JWS alg k c) token_type = Inr None"
  by (simp add: verify_token_def jwt_decode_def)

lemma access_token_type:
  assumes "case additional_claims of None \<Rightarrow> True | Some extra \<Rightarrow> ''type'' \<notin> fst ` set extra"
  shows "\<exists>c. create_access_token st now subj d additional_claims = JWS (algorithm st) (secret_key st) c
           \<and> map_of c ''type'' = Some (JStr ''access'')"
  using assms
  by (auto simp add: create_access_token_def jwt_encode_def Let_def map_of_dict_update_other
      split: option.split)

lemma refresh_token_type:
  "\<exists>c. create_refresh_token st now jti subj d = JWS (algorithm st) (secret_key st) c
           \<and> map_of c ''type'' = Some (JStr ''refresh'')"
  by (simp add: create_refresh_token_def jwt_encode_def Let_def)

text \<open>
  Claim C4. \<open>verify_token\<close> yields no payload whenever the token's type claim differs from
  the expected type, whenever the token is not signed with the server's key (or is no token
  at all), and whenever its \<open>exp\<close> lies before the current time. An access token verified as
  a refresh token fails, and a refresh token verified as an access token fails, at any time.
  Each of these failures is the same result, \<open>None\<close>: the cause that the token library
  reports is dropped.
\<close>

theorem verify_token_failures_uniform:
  "(map_of c ''type'' \<noteq> Some (JStr token_type) \<longrightarrow>
      verify_token st now (JWS alg k c) token_type = Inr None)
   \<and> (k \<noteq> secret_key st \<longrightarrow> verify_token st now (JWS alg k c) token_type = Inr None)
   \<and> verify_token st now (Opaque s) token_type = Inr None
   \<and> (map_of c ''exp'' = Some (JInt e) \<and> e < now \<longrightarrow>
      verify_token st now (JWS alg k c) token_type = Inr None)
   \<and> verify_token st now (create_access_token st issued subj d None) ''refresh'' = Inr None
   \<and> (''type'' \<notin> fst ` set extra \<longrightarrow>
      verify_token st now (create_access_token st issued subj d (Some extra)) ''refresh'' = Inr None)
   \<and> verify_token st now (create_refresh_token st issued jti subj d) ''access'' = Inr None
   \<and> verify_token st now (tp_access_token (create_token_pair st issued jti subj)) ''refresh'' = Inr None
   \<and> verify_token st now (tp_refresh_token (create_token_pair st issued jti subj)) ''access'' = Inr None"
proof -
  have acc: "verify_token st now (create_access_token st issued subj d ac) ''refresh'' = Inr None"
    if ok: "case ac of None \<Rightarrow> True | Some extra \<Rightarrow> ''type'' \<notin> fst ` set extra" for ac d
  proof -
    obtain c' where "create_access_token st issued subj d ac = JWS (algorithm st) (secret_key st) c'"
      "map_of c' ''type'' = Some (JStr ''access'')"
      using access_token_type [OF ok] by blast
    then show ?thesis by (simp add: verify_token_wrong_type)
  qed
  have ref: "verify_token st now (create_refresh_token st issued jti subj d) ''access'' = Inr None" for d
  proof -
    obtain c' where "create_refresh_token st issued jti subj d = JWS (algorithm st) (secret_key st) c'"
      "map_of c' ''type'' = Some (JStr ''refresh'')"
      using refresh_token_type by blast
    then show ?thesis by (simp add: verify_token_wrong_type)
  qed
  have p1: "verify_token st now (tp_access_token (create_token_pair st issued jti subj)) ''refresh'' = Inr None"
    using acc [of None None] by (simp add: create_token_pair_def Let_def)
  have p2: "verify_token st now (tp_refresh_token (create_token_pair st issued jti subj)) ''access'' = Inr None"
    using ref [of None] by (simp add: create_token_pair_def Let_def)
  show ?thesis
    using verify_token_wrong_type [of c token_type st now alg k]
      verify_token_bad_signature [of k st alg now c token_type]
      verify_token_opaque [of st now s token_type]
      verify_token_expired [of c e now st alg k token_type]
      acc [of None d] acc [of "Some extra" d] ref [of d] p1 p2
    by simp
qed

lemma verify_token_accepts_issued:
  "now \<le> issued + refresh_token_expire_days st * 86400 \<Longrightarrow>
     verify_token st now (tp_refresh_token (create_token_pair st issued jti subj)) ''refresh'' =
       Inr (Some \<lparr>p_sub = str_subject subj, p_exp = issued + refresh_token_expire_days st * 86400,
                  p_iat = issued, p_type = ''refresh'', p_jti = Some jti\<rparr>)"
  by (simp add: create_token_pair_def create_refresh_token_def jwt_encode_def Let_def
      verify_token_def jwt_decode_def claims_well_typed_def is_jint_def is_jstr_def
      TokenPayload_def)

lemma verify_token_accepts_access:
  "now \<le> issued + access_token_expire_minutes st * 60 \<Longrightarrow>
     verify_token st now (tp_access_token (create_token_pair st issued jti subj)) ''access'' =
       Inr (Some \<lparr>p_sub = str_subject subj, p_exp = issued + access_token_expire_minutes st * 60,
                  p_iat = issued, p_type = ''access'', p_jti = None\<rparr>)"
  by (simp add: create_token_pair_def create_access_token_def jwt_encode_def Let_def
      verify_token_def jwt_decode_def claims_well_typed_def is_jint_def is_jstr_def
      TokenPayload_def)

theorem verify_token_failures_uniform_witness:
  "verify_token server_settings 100
      (JWS ''HS256'' (secret_key server_settings)
         [(''sub'', JStr ''1''), (''exp'', JInt 1900), (''iat'', JInt 100), (''type'', JStr ''access'')])
      ''refresh'' = Inr None
   \<and> verify_token server_settings 100
      (JWS ''HS256'' ''another-key''
         [(''sub'', JStr ''1''), (''exp'', JInt 1900), (''iat'', JInt 100), (''type'', JStr ''access'')])
      ''access'' = Inr None
   \<and> verify_token server_settings 2000
      (JWS ''HS256'' (secret_key server_settings)
         [(''sub'', JStr ''1''), (''exp'', JInt 1900), (''iat'', JInt 100), (''type'', JStr ''access'')])
      ''access'' = Inr None
   \<and> verify_token server_settings 100
      (create_access_token server_settings 100 (IntSubject 1) None (Some [(''role'', JStr ''admin'')]))
      ''refresh'' = Inr None
   \<and> verify_token server_settings 100
      (JWS ''HS256'' (secret_key server_settings)
         [(''sub'', JStr ''1''), (''exp'', JInt 1900), (''iat'', JInt 100), (''type'', JStr ''access'')])
      ''access''
      = Inr (Some \<lparr>p_sub = ''1'', p_exp = 1900, p_iat = 100, p_type = ''access'', p_jti = None\<rparr>)"
proof -
  let ?c = "[(''sub'', JStr ''1''), (''exp'', JInt 1900), (''iat'', JInt 100), (''type'', JStr ''access'')]"
  have h1: "map_of ?c ''type'' \<noteq> Some (JStr ''refresh'')" by simp
  have h2: "''another-key'' \<noteq> secret_key server_settings" by (simp add: server_settings_def)
  have h3: "map_of ?c ''exp'' = Some (JInt 1900) \<and> (1900::int) < 2000" by simp
  have h4: "''type'' \<notin> fst ` set [(''role'', JStr ''admin'')]" by simp
  have a: "verify_token server_settings 100 (JWS ''HS256'' (secret_key server_settings) ?c) ''refresh'' = Inr None"
    using verify_token_failures_uniform [where c = ?c and token_type = "''refresh''"
        and st = server_settings and now = 100 and alg = "''HS256''"
        and k = "secret_key server_settings"] h1
    by blast
  have b: "verify_token server_settings 100 (JWS ''HS256'' ''another-key'' ?c) ''access'' = Inr None"
    using verify_token_failures_uniform [where c = ?c and token_type = "''access''"
        and st = server_settings and now = 100 and alg = "''HS256''" and k = "''another-key''"] h2
    by blast
  have c: "verify_token server_settings 2000 (JWS ''HS256'' (secret_key server_settings) ?c) ''access'' = Inr None"
    using verify_token_failures_uniform [where c = ?c and token_type = "''access''"
        and st = server_settings and now = 2000 and alg = "''HS256''"
        and k = "secret_key server_settings" and e = 1900] h3
    by blast
  have d: "verify_token server_settings 100
      (create_access_token server_settings 100 (IntSubject 1) None (Some [(''role'', JStr ''admin'')]))
      ''refresh'' = Inr None"
    using verify_token_failures_uniform [where st = server_settings and now = 100 and issued = 100
        and subj = "IntSubject 1" and d = None and extra = "[(''role'', JStr ''admin'')]"] h4
    by blast
  have e: "verify_token server_settings 100 (JWS ''HS256'' (secret_key server_settings) ?c) ''access''
      = Inr (Some \<lparr>p_sub = ''1'', p_exp = 1900, p_iat = 100, p_type = ''access'', p_jti = None\<rparr>)"
    by (simp add: verify_token_def jwt_decode_def claims_well_typed_def is_jint_def is_jstr_def
        TokenPayload_def server_settings_def)
  from a b c d e show ?thesis by blast
qed

section \<open>Properties of login\<close>

lemma alice_hash:
  "hash_password model_context ''saltsaltsaltsaltsalt22'' alice_password
     = Inr (u_hashed_password alice)"
  by (simp add: hash_password_def encode_utf8_def encodable_def alice_password_def utf8_char_def
      decode_step_def model_context_def passlib_bcrypt_def model_digest_def checksum31_def
      alice_def)

lemma alice_verify:
  "verify_password model_context alice_password (u_hashed_password alice) = Inr True"
  "verify_password model_context other_password (u_hashed_password alice) = Inr False"
  by (simp_all add: verify_password_def encode_utf8_def encodable_def alice_password_def
      other_password_def utf8_char_def
      decode_step_def model_context_def passlib_bcrypt_def model_digest_def checksum31_def
      alice_def bcrypt_identify_def bcrypt_idents_def bcrypt_parse_def is_digit_def)

lemma find_update:
  "find P us = Some u \<Longrightarrow> P u' \<Longrightarrow> u_id u' = u_id u \<Longrightarrow>
     find P (map (\<lambda>x. if u_id x = u_id u' then u' else x) us) = Some u'"
  by (induction us) (auto split: if_splits)

lemma find_user_update:
  assumes "find_user ident db = Some u" and "u_id u' = u_id u"
    and "u_email u' = u_email u" and "u_username u' = u_username u"
  shows "find_user ident (update_user u' db) = Some u'"
proof -
  have "u_email u = ident \<or> u_username u = ident"
    using assms(1) unfolding find_user_def by (auto dest: find_Some_iff [THEN iffD1])
  then have "u_email u' = ident \<or> u_username u' = ident"
    using assms by simp
  then have "find (\<lambda>u. u_email u = ident \<or> u_username u = ident)
       (map (\<lambda>x. if u_id x = u_id u' then u' else x) (users db)) = Some u'"
    using assms(1,2) unfolding find_user_def by (intro find_update) simp_all
  then show ?thesis
    unfolding find_user_def update_user_def by simp
qed

lemma login_unknown:
  "find_user (req_username rq) db = None \<Longrightarrow>
     login c st now jti rq ip ua db = (Inl (HTTPException 401 detail_login_unknown_user), db)"
  by (simp add: login_def)

lemma login_locked:
  "find_user (req_username rq) db = Some u \<Longrightarrow> is_locked u now \<Longrightarrow>
     login c st now jti rq ip ua db = (Inl (HTTPException 403 detail_login_locked), db)"
  by (simp add: login_def)

lemma login_bad_password:
  assumes "find_user (req_username rq) db = Some u" and "\<not> is_locked u now"
    and "verify_password c (req_password rq) (u_hashed_password u) = Inr False"
  shows "login c st now jti rq ip ua db =
           (Inl (HTTPException 401 detail_login_bad_password), update_user (after_failure u now) db)"
    and "find_user (req_username rq) (update_user (after_failure u now) db)
           = Some (after_failure u now)"
proof -
  show "login c st now jti rq ip ua db =
           (Inl (HTTPException 401 detail_login_bad_password), update_user (after_failure u now) db)"
    using assms by (simp add: login_def Let_def after_failure_def)
  show "find_user (req_username rq) (update_user (after_failure u now) db)
           = Some (after_failure u now)"
    by (rule find_user_update [OF assms(1)]) (simp_all add: after_failure_def)
qed

lemma login_success:
  assumes "find_user (req_username rq) db = Some u" and "\<not> is_locked u now"
    and "verify_password c (req_password rq) (u_hashed_password u) = Inr True"
    and "tp_refresh_token (create_token_pair st now jti (IntSubject (u_id u)))
           \<notin> set (map s_refresh_token (sessions db))"
  shows "login c st now jti rq ip ua db =
           (Inr (create_token_pair st now jti (IntSubject (u_id u))),
            (update_user (u\<lparr>u_failed_login_attempts := 0, u_locked_until := None,
                            u_last_login := Some now\<rparr>) db)
              \<lparr>sessions := sessions db @
                 [Session db now (u_id u)
                    (tp_refresh_token (create_token_pair st now jti (IntSubject (u_id u)))) now ip ua]\<rparr>)"
  using assms by (simp add: login_def Let_def add_session_def update_user_def Session_def)



lemma after_failure_reached:
  "5 \<le> u_failed_login_attempts u + 1 \<Longrightarrow>
     after_failure u now = u\<lparr>u_failed_login_attempts := u_failed_login_attempts u + 1,
                              u_locked_until := Some (now + 1800)\<rparr>"
  by (simp add: after_failure_def)




lemma find_alice: "find_user ''alice'' alice_db = Some alice"
  by (simp add: find_user_def alice_db_def alice_def)

lemma alice_not_locked: "\<not> is_locked alice t"
  by (simp add: is_locked_def alice_def)



lemma locked_db_eq:
  "locked_db = \<lparr>users = [alice\<lparr>u_failed_login_attempts := 5, u_locked_until := Some 1850\<rparr>],
                 sessions = []\<rparr>"
proof -
  have bad: "verify_password model_context other_password
      ''$2b$12$saltsaltsaltsaltsalt220122tlastlastlastlastlas$21$b2$'' = Inr False"
    using alice_verify(2) by (simp add: alice_def)
  show ?thesis
    unfolding locked_db_def five_failures_def
    by (simp add: login_def find_user_def is_locked_def alice_db_def alice_def bad Let_def
        update_user_def)
qed

lemma same_detail: "detail_login_unknown_user = detail_login_bad_password"
  by (simp add: detail_login_unknown_user_def detail_login_bad_password_def)




lemma login_verify_raises:
  "find_user (req_username rq) db = Some u \<Longrightarrow> \<not> is_locked u now \<Longrightarrow>
   verify_password c (req_password rq) (u_hashed_password u) = Inl e \<Longrightarrow>
     login c st now jti rq ip ua db = (Inl e, db)"
  by (simp add: login_def)

text \<open>
  Claim C8 as stated fails in two ways. A wrong password for an existing account that is
  locked is answered with 403 and the account-locked text, while an unknown identifier is
  answered with 401 and the invalid-credentials text. And a wrong password that has no UTF-8
  encoding (a lone surrogate) makes the password check raise for an existing, unlocked
  account, an exception that \<open>login\<close> does not catch, while an unknown identifier with the
  same password is answered with the 401.
\<close>

theorem login_locked_account_counterexample:
  "find_user ''nobody'' locked_db = None
   \<and> find_user ''alice'' locked_db
        = Some (alice\<lparr>u_failed_login_attempts := 5, u_locked_until := Some 1850\<rparr>)
   \<and> verify_password model_context other_password
        (u_hashed_password (alice\<lparr>u_failed_login_attempts := 5, u_locked_until := Some 1850\<rparr>))
        = Inr False
   \<and> fst (login model_context server_settings 60 ''j6''
          \<lparr>req_username = ''nobody'', req_password = other_password\<rparr> None None locked_db)
        = Inl (HTTPException 401 detail_login_unknown_user)
   \<and> fst (login model_context server_settings 60 ''j6''
          \<lparr>req_username = ''alice'', req_password = other_password\<rparr> None None locked_db)
        = Inl (HTTPException 403 detail_login_locked)
   \<and> fst (login model_context server_settings 60 ''j6''
          \<lparr>req_username = ''nobody'', req_password = other_password\<rparr> None None locked_db)
        \<noteq> fst (login model_context server_settings 60 ''j6''
          \<lparr>req_username = ''alice'', req_password = other_password\<rparr> None None locked_db)
   \<and> find_user ''nobody'' alice_db = None
   \<and> find_user ''alice'' alice_db = Some alice
   \<and> \<not> is_locked alice 10
   \<and> fst (login model_context server_settings 10 ''j1''
          \<lparr>req_username = ''nobody'', req_password = surrogate_password\<rparr> None None alice_db)
        = Inl (HTTPException 401 detail_login_unknown_user)
   \<and> fst (login model_context server_settings 10 ''j1''
          \<lparr>req_username = ''alice'', req_password = surrogate_password\<rparr> None None alice_db)
        = Inl UnicodeEncodeError"
proof -
  let ?u5 = "alice\<lparr>u_failed_login_attempts := 5, u_locked_until := Some 1850\<rparr>"
  have n: "find_user ''nobody'' locked_db = None"
    by (simp add: locked_db_eq find_user_def alice_def)
  have f: "find_user ''alice'' locked_db = Some ?u5"
    by (simp add: locked_db_eq find_user_def alice_def)
  have bad: "verify_password model_context other_password (u_hashed_password ?u5) = Inr False"
    by (simp add: alice_verify)
  have l: "is_locked ?u5 60" by (simp add: is_locked_def)
  have r1: "fst (login model_context server_settings 60 ''j6''
          \<lparr>req_username = ''nobody'', req_password = other_password\<rparr> None None locked_db)
        = Inl (HTTPException 401 detail_login_unknown_user)"
    using n by (simp add: login_unknown)
  have r2: "fst (login model_context server_settings 60 ''j6''
          \<lparr>req_username = ''alice'', req_password = other_password\<rparr> None None locked_db)
        = Inl (HTTPException 403 detail_login_locked)"
    using f l by (simp add: login_locked)
  have n': "find_user ''nobody'' alice_db = None"
    by (simp add: find_user_def alice_db_def alice_def)
  have r3: "fst (login model_context server_settings 10 ''j1''
          \<lparr>req_username = ''nobody'', req_password = surrogate_password\<rparr> None None alice_db)
        = Inl (HTTPException 401 detail_login_unknown_user)"
    using n' by (simp add: login_unknown)
  have raises: "verify_password model_context surrogate_password (u_hashed_password alice)
      = Inl UnicodeEncodeError"
    by (rule verify_password_unencodable) (simp add: surrogate_password_def encodable_def)
  have r4: "fst (login model_context server_settings 10 ''j1''
          \<lparr>req_username = ''alice'', req_password = surrogate_password\<rparr> None None alice_db)
        = Inl UnicodeEncodeError"
    using login_verify_raises [where rq = "\<lparr>req_username = ''alice'', req_password = surrogate_password\<rparr>"
        and db = alice_db and u = alice and now = 10 and c = model_context
        and e = UnicodeEncodeError and st = server_settings and jti = "''j1''"
        and ip = None and ua = None]
      find_alice alice_not_locked raises
    by simp
  from n f bad r1 r2 n' find_alice alice_not_locked [of 10] r3 r4 show ?thesis by simp
qed

text \<open>
  Claim C8, as amended. A login with an identifier that matches no account, and a login with
  an existing identifier, for an account that is not locked at that moment, and a password
  that the password check rejects (it returns false), fail with the same status and the
  same text. In two cases the answer for an existing account differs from the answer for an
  unknown identifier. For an account that is locked the answer is the account-locked error
  whatever the password. And when the password check raises instead of returning, as it does
  for a password that has no UTF-8 encoding, \<open>login\<close> catches nothing: the request ends with
  that exception and the database unchanged.
\<close>

theorem login_failure_indistinguishable:
  "(find_user (req_username rqa) db = None \<and> find_user (req_username rqb) db = Some u
      \<and> \<not> is_locked u nowb
      \<and> verify_password c (req_password rqb) (u_hashed_password u) = Inr False \<longrightarrow>
        fst (login c st nowa jtia rqa ipa uaa db) = Inl (HTTPException 401 detail_login_unknown_user)
        \<and> fst (login c st nowb jtib rqb ipb uab db) = fst (login c st nowa jtia rqa ipa uaa db))
   \<and> (find_user (req_username rqa) db = None \<and> find_user (req_username rqb) db = Some u
      \<and> is_locked u nowb \<longrightarrow>
        fst (login c st nowb jtib rqb ipb uab db) = Inl (HTTPException 403 detail_login_locked)
        \<and> fst (login c st nowb jtib rqb ipb uab db) \<noteq> fst (login c st nowa jtia rqa ipa uaa db))
   \<and> (find_user (req_username rqb) db = Some u \<and> \<not> is_locked u nowb
      \<and> verify_password c (req_password rqb) (u_hashed_password u) = Inl e \<longrightarrow>
        login c st nowb jtib rqb ipb uab db = (Inl e, db))
   \<and> (find_user (req_username rqa) db = None \<and> find_user (req_username rqb) db = Some u
      \<and> \<not> is_locked u nowb \<and> \<not> encodable (req_password rqb) \<longrightarrow>
        fst (login c st nowb jtib rqb ipb uab db) = Inl UnicodeEncodeError
        \<and> fst (login c st nowb jtib rqb ipb uab db) \<noteq> fst (login c st nowa jtia rqa ipa uaa db))"
proof (intro conjI impI)
  assume a: "find_user (req_username rqa) db = None \<and> find_user (req_username rqb) db = Some u
      \<and> \<not> is_locked u nowb
      \<and> verify_password c (req_password rqb) (u_hashed_password u) = Inr False"
  then have f: "find_user (req_username rqb) db = Some u" and nl: "\<not> is_locked u nowb"
    and bad: "verify_password c (req_password rqb) (u_hashed_password u) = Inr False"
    by blast+
  from a show r1: "fst (login c st nowa jtia rqa ipa uaa db)
      = Inl (HTTPException 401 detail_login_unknown_user)"
    by (simp add: login_unknown)
  show "fst (login c st nowb jtib rqb ipb uab db) = fst (login c st nowa jtia rqa ipa uaa db)"
    unfolding r1 using login_bad_password(1) [OF f nl bad, of st jtib ipb uab]
    by (simp add: same_detail)
next
  assume a: "find_user (req_username rqa) db = None \<and> find_user (req_username rqb) db = Some u
      \<and> is_locked u nowb"
  then show r2: "fst (login c st nowb jtib rqb ipb uab db) = Inl (HTTPException 403 detail_login_locked)"
    by (simp add: login_locked)
  from a have "fst (login c st nowa jtia rqa ipa uaa db)
      = Inl (HTTPException 401 detail_login_unknown_user)"
    by (simp add: login_unknown)
  then show "fst (login c st nowb jtib rqb ipb uab db) \<noteq> fst (login c st nowa jtia rqa ipa uaa db)"
    unfolding r2 by simp
next
  assume "find_user (req_username rqb) db = Some u \<and> \<not> is_locked u nowb
      \<and> verify_password c (req_password rqb) (u_hashed_password u) = Inl e"
  then show "login c st nowb jtib rqb ipb uab db = (Inl e, db)"
    by (simp add: login_verify_raises)
next
  assume a: "find_user (req_username rqa) db = None \<and> find_user (req_username rqb) db = Some u
      \<and> \<not> is_locked u nowb \<and> \<not> encodable (req_password rqb)"
  then have "verify_password c (req_password rqb) (u_hashed_password u) = Inl UnicodeEncodeError"
    by (simp add: verify_password_unencodable)
  with a show r3: "fst (login c st nowb jtib rqb ipb uab db) = Inl UnicodeEncodeError"
    by (simp add: login_verify_raises)
  from a have "fst (login c st nowa jtia rqa ipa uaa db)
      = Inl (HTTPException 401 detail_login_unknown_user)"
    by (simp add: login_unknown)
  then show "fst (login c st nowb jtib rqb ipb uab db) \<noteq> fst (login c st nowa jtia rqa ipa uaa db)"
    unfolding r3 by simp
qed

theorem login_failure_indistinguishable_witness:
  "fst (login model_context server_settings 10 ''j1''
          \<lparr>req_username = ''nobody'', req_password = other_password\<rparr> None None alice_db)
     = Inl (HTTPException 401 detail_login_unknown_user)
   \<and> fst (login model_context server_settings 10 ''j1''
          \<lparr>req_username = ''alice'', req_password = other_password\<rparr> None None alice_db)
     = fst (login model_context server_settings 10 ''j1''
          \<lparr>req_username = ''nobody'', req_password = other_password\<rparr> None None alice_db)
   \<and> fst (login model_context server_settings 60 ''j6''
          \<lparr>req_username = ''alice'', req_password = other_password\<rparr> None None locked_db)
     = Inl (HTTPException 403 detail_login_locked)
   \<and> login model_context server_settings 10 ''j1''
          \<lparr>req_username = ''alice'', req_password = surrogate_password\<rparr> None None alice_db
     = (Inl UnicodeEncodeError, alice_db)
   \<and> fst (login model_context server_settings 10 ''j1''
          \<lparr>req_username = ''alice'', req_password = surrogate_password\<rparr> None None alice_db)
     \<noteq> fst (login model_context server_settings 10 ''j1''
          \<lparr>req_username = ''nobody'', req_password = other_password\<rparr> None None alice_db)"
proof -
  let ?u5 = "alice\<lparr>u_failed_login_attempts := 5, u_locked_until := Some 1850\<rparr>"
  let ?rqn = "\<lparr>req_username = ''nobody'', req_password = other_password\<rparr>"
  let ?rqw = "\<lparr>req_username = ''alice'', req_password = other_password\<rparr>"
  let ?rqs = "\<lparr>req_username = ''alice'', req_password = surrogate_password\<rparr>"
  have ne: "\<not> encodable surrogate_password"
    by (simp add: surrogate_password_def encodable_def)
  have h1: "find_user (req_username ?rqn) alice_db = None
      \<and> find_user (req_username ?rqw) alice_db = Some alice
      \<and> \<not> is_locked alice 10
      \<and> verify_password model_context (req_password ?rqw) (u_hashed_password alice) = Inr False"
    by (simp add: find_alice alice_not_locked alice_verify) (simp add: find_user_def alice_db_def alice_def)
  have h2: "find_user (req_username ?rqn) locked_db = None
      \<and> find_user (req_username ?rqw) locked_db = Some ?u5
      \<and> is_locked ?u5 60"
    by (simp add: locked_db_eq find_user_def alice_def is_locked_def)
  have h3: "find_user (req_username ?rqs) alice_db = Some alice \<and> \<not> is_locked alice 10
      \<and> verify_password model_context (req_password ?rqs) (u_hashed_password alice)
          = Inl UnicodeEncodeError"
    using ne by (simp add: find_alice alice_not_locked verify_password_unencodable)
  from login_failure_indistinguishable [where rqa = ?rqn and rqb = ?rqw and db = alice_db
      and u = alice and nowa = 10 and nowb = 10 and c = model_context
      and st = server_settings and jtia = "''j1''" and jtib = "''j1''"
      and ipa = None and ipb = None and uaa = None and uab = None] h1
  have r1: "fst (login model_context server_settings 10 ''j1'' ?rqn None None alice_db)
     = Inl (HTTPException 401 detail_login_unknown_user)"
    and r2: "fst (login model_context server_settings 10 ''j1'' ?rqw None None alice_db)
     = fst (login model_context server_settings 10 ''j1'' ?rqn None None alice_db)"
    by blast+
  from login_failure_indistinguishable [where rqa = ?rqn and rqb = ?rqw and db = locked_db
      and u = ?u5 and nowa = 60 and nowb = 60 and c = model_context
      and st = server_settings and jtia = "''j6''" and jtib = "''j6''"
      and ipa = None and ipb = None and uaa = None and uab = None] h2
  have r3: "fst (login model_context server_settings 60 ''j6'' ?rqw None None locked_db)
     = Inl (HTTPException 403 detail_login_locked)"
    by blast
  from login_failure_indistinguishable [where rqb = ?rqs and db = alice_db
      and u = alice and nowb = 10 and c = model_context and e = UnicodeEncodeError
      and st = server_settings and jtib = "''j1''" and ipb = None and uab = None] h3
  have r4: "login model_context server_settings 10 ''j1'' ?rqs None None alice_db
     = (Inl UnicodeEncodeError, alice_db)"
    by blast
  have h4: "find_user (req_username ?rqn) alice_db = None
      \<and> find_user (req_username ?rqs) alice_db = Some alice
      \<and> \<not> is_locked alice 10 \<and> \<not> encodable (req_password ?rqs)"
    using h1 h3 ne by simp
  from login_failure_indistinguishable [where rqa = ?rqn and rqb = ?rqs and db = alice_db
      and u = alice and nowa = 10 and nowb = 10 and c = model_context
      and st = server_settings and jtia = "''j1''" and jtib = "''j1''"
      and ipa = None and ipb = None and uaa = None and uab = None] h4
  have r5: "fst (login model_context server_settings 10 ''j1'' ?rqs None None alice_db)
     \<noteq> fst (login model_context server_settings 10 ''j1'' ?rqn None None alice_db)"
    by blast
  from r1 r2 r3 r4 r5 show ?thesis by blast
qed

lemma refresh_exp_claim:
  "tp_refresh_token (create_token_pair st now jti subj) =
     JWS (algorithm st) (secret_key st)
       [(''sub'', JStr (str_subject subj)),
        (''exp'', JInt (now + refresh_token_expire_days st * 86400)),
        (''iat'', JInt now), (''type'', JStr ''refresh''), (''jti'', JStr jti)]"
  by (simp add: create_token_pair_def create_refresh_token_def jwt_encode_def Let_def)

lemma login_session_expiry:
  assumes "login c st now jti rq ip ua db = (Inr pair, db')"
  shows "sessions db' \<noteq> [] \<and> s_refresh_token (last (sessions db')) = tp_refresh_token pair
       \<and> s_expires_at (last (sessions db')) = now
       \<and> s_created_at (last (sessions db')) = now"
  using assms
  by (auto simp add: login_def Let_def add_session_def update_user_def Session_def
      split: option.splits if_splits sum.splits bool.splits)

lemma refresh_session_expiry:
  assumes "refresh_token st now jti tok db = (Inr pair, db')"
  shows "sessions db' \<noteq> [] \<and> s_refresh_token (last (sessions db')) = tp_refresh_token pair
       \<and> s_expires_at (last (sessions db')) = now
       \<and> s_created_at (last (sessions db')) = now"
  using assms
  by (auto simp add: refresh_token_def Let_def add_session_def update_session_def Session_def
      split: option.splits if_splits sum.splits bool.splits)

lemma alice_login:
  "login model_context server_settings 1000 ''f00d''
      \<lparr>req_username = ''alice'', req_password = alice_password\<rparr> (Some ''10.0.0.7'') None alice_db
   = (Inr (create_token_pair server_settings 1000 ''f00d'' (IntSubject 1)),
      \<lparr>users = [alice\<lparr>u_last_login := Some 1000\<rparr>],
       sessions = [\<lparr>s_id = 1, s_user_id = 1,
          s_refresh_token = tp_refresh_token (create_token_pair server_settings 1000 ''f00d'' (IntSubject 1)),
          s_expires_at = 1000, s_client_ip = Some ''10.0.0.7'', s_user_agent = None,
          s_is_active = True, s_revoked_at = None, s_created_at = 1000\<rparr>]\<rparr>)"
proof -
  let ?rq = "\<lparr>req_username = ''alice'', req_password = alice_password\<rparr>"
  have f: "find_user (req_username ?rq) alice_db = Some alice" by (simp add: find_alice)
  have ok: "verify_password model_context (req_password ?rq) (u_hashed_password alice) = Inr True"
    by (simp add: alice_verify)
  have fresh: "tp_refresh_token (create_token_pair server_settings 1000 ''f00d'' (IntSubject (u_id alice)))
           \<notin> set (map s_refresh_token (sessions alice_db))"
    by (simp add: alice_db_def)
  have id: "u_id alice = 1" by (simp add: alice_def)
  show ?thesis
    unfolding login_success [OF f alice_not_locked ok fresh] id
    by (simp add: alice_db_def update_user_def Session_def next_session_id_def alice_def)
qed

section \<open>Properties of sessions, refresh and logout\<close>

lemma alice_refresh_token:
  "tp_refresh_token alice_pair =
     JWS ''HS256'' ''change-this-in-production-use-long-random-string''
       [(''sub'', JStr ''1''), (''exp'', JInt 605800), (''iat'', JInt 1000),
        (''type'', JStr ''refresh''), (''jti'', JStr ''f00d'')]"
  by (simp add: alice_pair_def refresh_exp_claim server_settings_def str_subject_def str_int_def
      str_nat.simps digit_char_def)

lemma logged_in_db_eq:
  "logged_in_db =
     \<lparr>users = [alice\<lparr>u_last_login := Some 1000\<rparr>],
      sessions = [\<lparr>s_id = 1, s_user_id = 1, s_refresh_token = tp_refresh_token alice_pair,
          s_expires_at = 1000, s_client_ip = Some ''10.0.0.7'', s_user_agent = None,
          s_is_active = True, s_revoked_at = None, s_created_at = 1000\<rparr>]\<rparr>"
  unfolding logged_in_db_def alice_login alice_pair_def by simp

lemma alice_refresh_verifies:
  "now \<le> 605800 \<Longrightarrow>
     verify_token server_settings now (tp_refresh_token alice_pair) ''refresh'' =
       Inr (Some \<lparr>p_sub = ''1'', p_exp = 605800, p_iat = 1000, p_type = ''refresh'',
                  p_jti = Some ''f00d''\<rparr>)"
  unfolding alice_refresh_token
  by (simp add: verify_token_def jwt_decode_def claims_well_typed_def is_jint_def is_jstr_def
      TokenPayload_def server_settings_def)

lemma alice_refresh:
  "refresh_token server_settings 2000 ''beef'' (tp_refresh_token alice_pair) logged_in_db =
     (Inr (create_token_pair server_settings 2000 ''beef'' (StrSubject ''1'')),
      \<lparr>users = [alice\<lparr>u_last_login := Some 1000\<rparr>],
       sessions =
         [\<lparr>s_id = 1, s_user_id = 1, s_refresh_token = tp_refresh_token alice_pair,
           s_expires_at = 1000, s_client_ip = Some ''10.0.0.7'', s_user_agent = None,
           s_is_active = False, s_revoked_at = Some 2000, s_created_at = 1000\<rparr>,
          \<lparr>s_id = 2, s_user_id = 1,
           s_refresh_token =
             tp_refresh_token (create_token_pair server_settings 2000 ''beef'' (StrSubject ''1'')),
           s_expires_at = 2000, s_client_ip = Some ''10.0.0.7'', s_user_agent = None,
           s_is_active = True, s_revoked_at = None, s_created_at = 2000\<rparr>]\<rparr>)"
proof -
  have v: "verify_token server_settings 2000 (tp_refresh_token alice_pair) ''refresh'' =
       Inr (Some \<lparr>p_sub = ''1'', p_exp = 605800, p_iat = 1000, p_type = ''refresh'',
                  p_jti = Some ''f00d''\<rparr>)"
    by (rule alice_refresh_verifies) simp
  have i: "py_int ''1'' = Some 1" by (simp add: py_int_def digit_val_def)
  have ne: "tp_refresh_token (create_token_pair server_settings 2000 ''beef'' (StrSubject ''1''))
      \<noteq> tp_refresh_token alice_pair"
    by (simp add: alice_refresh_token refresh_exp_claim)
  show ?thesis
    unfolding refresh_token_def v logged_in_db_eq
    using ne
    by (simp add: i Let_def update_session_def add_session_def Session_def next_session_id_def)
qed

text \<open>
  Claim C6 does not hold of the code: the session that a successful login stores, and the
  session that a successful refresh stores, have as expiry the time of creation, while the
  refresh token they hold expires 7 days later. Here a login at time 1000 and a refresh at
  time 2000, with the default settings.
\<close>

theorem session_expiry_is_creation_time:
  "fst (login model_context server_settings 1000 ''f00d''
          \<lparr>req_username = ''alice'', req_password = alice_password\<rparr>
          (Some ''10.0.0.7'') None alice_db) = Inr alice_pair
   \<and> map s_expires_at (sessions logged_in_db) = [1000]
   \<and> map s_created_at (sessions logged_in_db) = [1000]
   \<and> map (token_exp \<circ> s_refresh_token) (sessions logged_in_db) = [Some (1000 + 7 * 86400)]
   \<and> (\<exists>pair. fst (refresh_token server_settings 2000 ''beef'' (tp_refresh_token alice_pair)
                     logged_in_db) = Inr pair)
   \<and> map s_expires_at (sessions (snd (refresh_token server_settings 2000 ''beef''
          (tp_refresh_token alice_pair) logged_in_db))) = [1000, 2000]
   \<and> map (token_exp \<circ> s_refresh_token) (sessions (snd (refresh_token server_settings 2000 ''beef''
          (tp_refresh_token alice_pair) logged_in_db))) = [Some (1000 + 7 * 86400), Some (2000 + 7 * 86400)]"
proof -
  have a: "fst (login model_context server_settings 1000 ''f00d''
          \<lparr>req_username = ''alice'', req_password = alice_password\<rparr>
          (Some ''10.0.0.7'') None alice_db) = Inr alice_pair"
    by (simp add: alice_login alice_pair_def)
  have b: "map s_expires_at (sessions logged_in_db) = [1000]"
    "map s_created_at (sessions logged_in_db) = [1000]"
    by (simp_all add: logged_in_db_eq)
  have c: "map (token_exp \<circ> s_refresh_token) (sessions logged_in_db) = [Some (1000 + 7 * 86400)]"
    by (simp add: logged_in_db_eq alice_refresh_token token_exp_def)
  have d: "\<exists>pair. fst (refresh_token server_settings 2000 ''beef'' (tp_refresh_token alice_pair)
                     logged_in_db) = Inr pair"
    by (simp add: alice_refresh)
  have e: "map s_expires_at (sessions (snd (refresh_token server_settings 2000 ''beef''
          (tp_refresh_token alice_pair) logged_in_db))) = [1000, 2000]"
    by (simp add: alice_refresh)
  have f: "map (token_exp \<circ> s_refresh_token) (sessions (snd (refresh_token server_settings 2000 ''beef''
          (tp_refresh_token alice_pair) logged_in_db))) = [Some (1000 + 7 * 86400), Some (2000 + 7 * 86400)]"
    unfolding alice_refresh
    by (simp add: alice_refresh_token token_exp_def refresh_exp_claim server_settings_def)
  from a b c d e f show ?thesis by blast
qed

subsection \<open>The invariant of the session table\<close>

lemma fold_max_ge: "(a::int) \<le> fold max xs a"
  by (induction xs arbitrary: a) (auto intro: order_trans [OF max.cobounded2])

lemma fold_max_upper: "x \<in> set xs \<Longrightarrow> (x::int) \<le> fold max xs a"
proof (induction xs arbitrary: a)
  case Nil
  then show ?case by simp
next
  case (Cons y ys)
  show ?case
  proof (cases "x = y")
    case True
    have "max y a \<le> fold max ys (max y a)" by (rule fold_max_ge)
    then show ?thesis using True by simp
  next
    case False
    then have "x \<in> set ys" using Cons.prems by simp
    from Cons.IH [OF this] show ?thesis by simp
  qed
qed

lemma next_session_id_fresh: "next_session_id db \<notin> set (map s_id (sessions db))"
proof
  assume "next_session_id db \<in> set (map s_id (sessions db))"
  then have "next_session_id db \<le> fold max (map s_id (sessions db)) 0"
    by (rule fold_max_upper)
  then show False by (simp add: next_session_id_def)
qed

lemma map_update_same:
  assumes d: "distinct (map s_id ss)" and m: "old \<in> set ss" and k: "s_id new = s_id old"
    and f: "f new = f old"
  shows "map f (map (\<lambda>x. if s_id x = s_id new then new else x) ss) = map f ss"
proof -
  have "f (if s_id x = s_id new then new else x) = f x" if "x \<in> set ss" for x
  proof (cases "s_id x = s_id new")
    case True
    then have "x = old" using d m that k by (simp add: distinct_map inj_on_def)
    then show ?thesis using True f by simp
  next
    case False
    then show ?thesis by simp
  qed
  then show ?thesis by simp
qed

lemma table_ok_update:
  assumes ok: "table_ok ss" and m: "old \<in> set ss"
  shows "table_ok (map (\<lambda>x. if s_id x = s_id (old\<lparr>s_is_active := a, s_revoked_at := r\<rparr>)
                          then old\<lparr>s_is_active := a, s_revoked_at := r\<rparr> else x) ss)"
    and "map s_refresh_token (map (\<lambda>x. if s_id x = s_id (old\<lparr>s_is_active := a, s_revoked_at := r\<rparr>)
                          then old\<lparr>s_is_active := a, s_revoked_at := r\<rparr> else x) ss)
         = map s_refresh_token ss"
proof -
  let ?new = "old\<lparr>s_is_active := a, s_revoked_at := r\<rparr>"
  have d: "distinct (map s_id ss)" using ok by (simp add: table_ok_def)
  have i: "map s_id (map (\<lambda>x. if s_id x = s_id ?new then ?new else x) ss) = map s_id ss"
    by (rule map_update_same [OF d m]) simp_all
  show t: "map s_refresh_token (map (\<lambda>x. if s_id x = s_id ?new then ?new else x) ss)
      = map s_refresh_token ss"
    by (rule map_update_same [OF d m]) simp_all
  show "table_ok (map (\<lambda>x. if s_id x = s_id ?new then ?new else x) ss)"
    unfolding table_ok_def i t using ok by (simp add: table_ok_def)
qed

lemma table_ok_append:
  assumes "table_ok ss" and "s_id s \<notin> set (map s_id ss)"
    and "s_refresh_token s \<notin> set (map s_refresh_token ss)"
  shows "table_ok (ss @ [s])"
  using assms by (simp add: table_ok_def)

lemma find_in_set: "find P xs = Some x \<Longrightarrow> x \<in> set xs \<and> P x"
  by (induction xs) (auto split: if_splits)

lemma Session_fields:
  "s_id (Session db now uid tok e ip ua) = next_session_id db"
  "s_refresh_token (Session db now uid tok e ip ua) = tok"
  "s_is_active (Session db now uid tok e ip ua) = True"
  "s_revoked_at (Session db now uid tok e ip ua) = None"
  "s_expires_at (Session db now uid tok e ip ua) = e"
  "s_user_id (Session db now uid tok e ip ua) = uid"
  by (simp_all add: Session_def)

lemma login_sessions:
  "sessions (snd (login c st now jti rq ip ua db)) = sessions db
   \<or> (\<exists>tok uid e. tok \<notin> set (map s_refresh_token (sessions db))
        \<and> sessions (snd (login c st now jti rq ip ua db))
            = sessions db @ [Session db now uid tok e ip ua])"
  by (auto simp add: login_def Let_def add_session_def update_user_def Session_fields
      split: option.splits sum.splits bool.splits)

lemma table_ok_login:
  assumes "table_ok (sessions db)"
  shows "table_ok (sessions (snd (login c st now jti rq ip ua db)))"
proof -
  from login_sessions [of c st now jti rq ip ua db] show ?thesis
  proof
    assume "sessions (snd (login c st now jti rq ip ua db)) = sessions db"
    then show ?thesis using assms by simp
  next
    assume "\<exists>tok uid e. tok \<notin> set (map s_refresh_token (sessions db))
        \<and> sessions (snd (login c st now jti rq ip ua db))
            = sessions db @ [Session db now uid tok e ip ua]"
    then obtain tok uid e where fresh: "tok \<notin> set (map s_refresh_token (sessions db))"
      and eq: "sessions (snd (login c st now jti rq ip ua db))
            = sessions db @ [Session db now uid tok e ip ua]"
      by blast
    show ?thesis
      unfolding eq
      by (rule table_ok_append [OF assms])
         (simp_all only: Session_fields next_session_id_fresh fresh not_False_eq_True)
  qed
qed

lemma refresh_cases:
  "snd (refresh_token st now jti tok db) = db
   \<or> (\<exists>old p uid. find (\<lambda>s. s_refresh_token s = tok \<and> s_is_active s) (sessions db) = Some old
        \<and> verify_token st now tok ''refresh'' = Inr (Some p)
        \<and> py_int (p_sub p) = Some uid
        \<and> tp_refresh_token (create_token_pair st now jti (StrSubject (p_sub p)))
             \<notin> set (map s_refresh_token
                  (map (\<lambda>x. if s_id x = s_id (old\<lparr>s_is_active := False, s_revoked_at := Some now\<rparr>)
                            then old\<lparr>s_is_active := False, s_revoked_at := Some now\<rparr> else x)
                     (sessions db)))
        \<and> refresh_token st now jti tok db =
            (Inr (create_token_pair st now jti (StrSubject (p_sub p))),
             db\<lparr>sessions :=
                 map (\<lambda>x. if s_id x = s_id (old\<lparr>s_is_active := False, s_revoked_at := Some now\<rparr>)
                           then old\<lparr>s_is_active := False, s_revoked_at := Some now\<rparr> else x)
                   (sessions db)
                 @ [Session db now uid
                      (tp_refresh_token (create_token_pair st now jti (StrSubject (p_sub p))))
                      now (s_client_ip old) (s_user_agent old)]\<rparr>))"
  by (auto simp add: refresh_token_def Let_def add_session_def update_session_def Session_fields
      split: option.splits sum.splits if_splits)

lemma table_ok_refresh:
  assumes ok: "table_ok (sessions db)"
  shows "table_ok (sessions (snd (refresh_token st now jti tok db)))"
  using refresh_cases [of st now jti tok db]
proof (elim disjE exE conjE)
  assume "snd (refresh_token st now jti tok db) = db"
  then show ?thesis using ok by simp
next
  fix old :: session and p :: token_payload and uid :: int
  let ?old' = "old\<lparr>s_is_active := False, s_revoked_at := Some now\<rparr>"
  let ?upd = "map (\<lambda>x. if s_id x = s_id ?old' then ?old' else x) (sessions db)"
  let ?tok = "tp_refresh_token (create_token_pair st now jti (StrSubject (p_sub p)))"
  let ?new = "Session db now uid ?tok now (s_client_ip old) (s_user_agent old)"
  assume f: "find (\<lambda>s. s_refresh_token s = tok \<and> s_is_active s) (sessions db) = Some old"
    and fresh: "?tok \<notin> set (map s_refresh_token ?upd)"
    and eq: "refresh_token st now jti tok db =
            (Inr (create_token_pair st now jti (StrSubject (p_sub p))),
             db\<lparr>sessions := ?upd @ [?new]\<rparr>)"
  have m: "old \<in> set (sessions db)" using find_in_set [OF f] by simp
  have ok': "table_ok ?upd" by (rule table_ok_update(1) [OF ok m])
  have ids: "map s_id ?upd = map s_id (sessions db)"
    using ok m by (intro map_update_same) (simp_all add: table_ok_def)
  have "table_ok (?upd @ [?new])"
  proof (rule table_ok_append [OF ok'])
    show "s_id ?new \<notin> set (map s_id ?upd)"
      unfolding ids by (simp only: Session_fields next_session_id_fresh not_False_eq_True)
    show "s_refresh_token ?new \<notin> set (map s_refresh_token ?upd)"
      using fresh by (simp add: Session_fields)
  qed
  then show ?thesis unfolding eq by simp
qed

lemma table_ok_logout:
  assumes ok: "table_ok (sessions db)"
  shows "table_ok (sessions (snd (logout now tok db)))"
proof (cases "find (\<lambda>s. s_refresh_token s = tok) (sessions db)")
  case None
  then show ?thesis using ok by (simp add: logout_def)
next
  case (Some old)
  have m: "old \<in> set (sessions db)" using find_in_set [OF Some] by simp
  show ?thesis
    using table_ok_update(1) [OF ok m, where a = False and r = "Some now"] Some
    by (simp add: logout_def update_session_def)
qed

lemma table_ok_delete:
  assumes ok: "table_ok (sessions db)"
  shows "table_ok (sessions (delete_my_account cu db))"
  using ok by (simp add: table_ok_def delete_my_account_def distinct_map_filter)

lemma reachable_table_ok:
  "reachable c st db \<Longrightarrow> table_ok (sessions db)"
proof (induction rule: reachable.induct)
  case (initial us)
  show ?case by (simp add: table_ok_def)
next
  case (users_written db us)
  then show ?case by simp
next
  case (after_login db now jti request client_ip user_agent)
  from after_login.IH show ?case by (rule table_ok_login)
next
  case (after_refresh db now jti request_token)
  from after_refresh.IH show ?case by (rule table_ok_refresh)
next
  case (after_logout db now request_token)
  from after_logout.IH show ?case by (rule table_ok_logout)
next
  case (after_delete db current_user)
  from after_delete.IH show ?case by (rule table_ok_delete)
qed

lemma at_most_one_per_token:
  "distinct (map f xs) \<Longrightarrow> length (filter (\<lambda>x. P x \<and> f x = t) xs) \<le> 1"
proof (induction xs)
  case Nil
  then show ?case by simp
next
  case (Cons x xs)
  show ?case
  proof (cases "f x = t")
    case True
    have "f x \<notin> f ` set xs" using Cons.prems by simp
    then have "\<forall>y \<in> set xs. f y \<noteq> t" using True by blast
    then have "filter (\<lambda>x. P x \<and> f x = t) xs = []" by (simp add: filter_empty_conv)
    then show ?thesis by simp
  next
    case False
    then show ?thesis using Cons by simp
  qed
qed

lemma refresh_success_inv:
  assumes "refresh_token st now jti tok db = (Inr pair, db')"
  shows "\<exists>old p uid. find (\<lambda>s. s_refresh_token s = tok \<and> s_is_active s) (sessions db) = Some old
        \<and> verify_token st now tok ''refresh'' = Inr (Some p)
        \<and> py_int (p_sub p) = Some uid
        \<and> pair = create_token_pair st now jti (StrSubject (p_sub p))
        \<and> tp_refresh_token pair
             \<notin> set (map s_refresh_token
                  (map (\<lambda>x. if s_id x = s_id old
                            then old\<lparr>s_is_active := False, s_revoked_at := Some now\<rparr> else x)
                     (sessions db)))
        \<and> db' = db\<lparr>sessions :=
                 map (\<lambda>x. if s_id x = s_id old
                           then old\<lparr>s_is_active := False, s_revoked_at := Some now\<rparr> else x)
                   (sessions db)
                 @ [Session db now uid (tp_refresh_token pair) now (s_client_ip old)
                      (s_user_agent old)]\<rparr>"
  using assms
  by (auto simp add: refresh_token_def Let_def add_session_def update_session_def Session_fields
      split: option.splits sum.splits if_splits)

lemma verify_token_time:
  assumes "verify_token st now tok ty = Inr (Some p)"
  shows "token_exp tok = Some (p_exp p) \<and> now \<le> p_exp p
       \<and> (\<forall>t. verify_token st t tok ty = (if p_exp p < t then Inr None else Inr (Some p)))"
proof (cases tok)
  case (Opaque s)
  then show ?thesis using assms by (simp add: verify_token_def jwt_decode_def)
next
  case (JWS alg k c)
  have sig: "alg = algorithm st \<and> k = secret_key st"
    using assms JWS by (auto simp add: verify_token_def jwt_decode_def split: if_splits)
  have wt: "claims_well_typed c"
    using assms JWS sig by (auto simp add: verify_token_def jwt_decode_def split: if_splits)
  have ty: "map_of c ''type'' = Some (JStr ty)"
    using assms JWS sig wt
    by (auto simp add: verify_token_def jwt_decode_def split: if_splits option.splits jval.splits)
  have tp: "TokenPayload c = Inr p"
    using assms JWS sig wt ty
    by (auto simp add: verify_token_def jwt_decode_def
        split: if_splits option.splits jval.splits sum.splits)
  have ex: "map_of c ''exp'' = Some (JInt (p_exp p))"
    using tp by (auto simp add: TokenPayload_def split: option.splits jval.splits)
  have le: "now \<le> p_exp p"
    using assms JWS sig wt ex
    by (auto simp add: verify_token_def jwt_decode_def split: if_splits)
  have "verify_token st t tok ty = (if p_exp p < t then Inr None else Inr (Some p))" for t
    using JWS sig wt ty tp ex by (simp add: verify_token_def jwt_decode_def)
  then show ?thesis
    using ex le JWS by (simp add: token_exp_def)
qed

lemma rotated_table:
  assumes ok: "table_ok ss" and m: "old \<in> set ss"
    and fresh: "s_refresh_token new \<notin> set (map s_refresh_token
        (map (\<lambda>x. if s_id x = s_id old then old\<lparr>s_is_active := False, s_revoked_at := r\<rparr> else x) ss))"
  shows "find (\<lambda>s. s_refresh_token s = s_refresh_token old \<and> s_is_active s)
           (map (\<lambda>x. if s_id x = s_id old then old\<lparr>s_is_active := False, s_revoked_at := r\<rparr> else x) ss
            @ [new]) = None"
    and "s_refresh_token new \<noteq> s_refresh_token old"
    and "map (\<lambda>x. if s_id x = s_id old then old\<lparr>s_is_active := False, s_revoked_at := r\<rparr> else x) ss
         = map (\<lambda>x. if x = old then old\<lparr>s_is_active := False, s_revoked_at := r\<rparr> else x) ss"
proof -
  let ?old' = "old\<lparr>s_is_active := False, s_revoked_at := r\<rparr>"
  let ?upd = "map (\<lambda>x. if s_id x = s_id old then ?old' else x) ss"
  have di: "inj_on s_id (set ss)" and dt: "inj_on s_refresh_token (set ss)"
    using ok by (simp_all add: table_ok_def distinct_map)
  have same: "(s_id x = s_id old) = (x = old)" if "x \<in> set ss" for x
    using di m that by (auto simp add: inj_on_def)
  show eq: "?upd = map (\<lambda>x. if x = old then ?old' else x) ss"
    using same by simp
  have "?old' \<in> set ?upd" using m by (auto simp add: image_iff)
  then have "s_refresh_token old \<in> set (map s_refresh_token ?upd)"
    by (metis (no_types, lifting) image_eqI list.set_map session.select_convs(3)
        session.surjective session.update_convs(7) session.update_convs(8))
  then show ne: "s_refresh_token new \<noteq> s_refresh_token old"
    using fresh by metis
  have "\<not> (s_refresh_token x = s_refresh_token old \<and> s_is_active x)" if "x \<in> set ?upd" for x
  proof -
    from that obtain y where y: "y \<in> set ss" "x = (if s_id y = s_id old then ?old' else y)"
      by auto
    show ?thesis
    proof (cases "s_id y = s_id old")
      case True
      then show ?thesis using y by simp
    next
      case False
      then have "y \<noteq> old" by auto
      then have "s_refresh_token y \<noteq> s_refresh_token old"
        using dt m y(1) by (auto simp add: inj_on_def)
      then show ?thesis using y False by simp
    qed
  qed
  then have inner: "\<forall>x \<in> set ?upd. \<not> (s_refresh_token x = s_refresh_token old \<and> s_is_active x)"
    by blast
  have "\<forall>x \<in> set (?upd @ [new]). \<not> (s_refresh_token x = s_refresh_token old \<and> s_is_active x)"
  proof
    fix x assume "x \<in> set (?upd @ [new])"
    then have "x \<in> set ?upd \<or> x = new" by (simp only: set_append Un_iff list.set) blast
    then show "\<not> (s_refresh_token x = s_refresh_token old \<and> s_is_active x)"
      using inner ne by blast
  qed
  then show "find (\<lambda>s. s_refresh_token s = s_refresh_token old \<and> s_is_active s) (?upd @ [new]) = None"
    unfolding find_None_iff by blast
qed

subsection \<open>A revoked token stays revoked\<close>

lemma login_result_sessions:
  "sessions (snd (login c st now jti rq ip ua db)) = sessions db
   \<or> (\<exists>pair uid e. fst (login c st now jti rq ip ua db) = Inr pair
        \<and> sessions (snd (login c st now jti rq ip ua db))
            = sessions db @ [Session db now uid (tp_refresh_token pair) e ip ua])"
  by (auto simp add: login_def Let_def add_session_def update_user_def Session_fields
      split: option.splits sum.splits bool.splits)

lemma no_active_login:
  assumes inv: "\<forall>s \<in> set (sessions db). s_refresh_token s = t \<longrightarrow> \<not> s_is_active s"
    and other: "\<forall>pair. fst (login c st now jti rq ip ua db) = Inr pair \<longrightarrow> tp_refresh_token pair \<noteq> t"
  shows "\<forall>s \<in> set (sessions (snd (login c st now jti rq ip ua db))).
           s_refresh_token s = t \<longrightarrow> \<not> s_is_active s"
  using login_result_sessions [of c st now jti rq ip ua db]
proof (elim disjE exE conjE)
  assume "sessions (snd (login c st now jti rq ip ua db)) = sessions db"
  then show ?thesis using inv by simp
next
  fix pair :: token_pair and uid :: int and e :: time
  assume r: "fst (login c st now jti rq ip ua db) = Inr pair"
    and eq: "sessions (snd (login c st now jti rq ip ua db))
            = sessions db @ [Session db now uid (tp_refresh_token pair) e ip ua]"
  have "tp_refresh_token pair \<noteq> t" using other r by blast
  then show ?thesis unfolding eq using inv by (simp add: Session_fields)
qed

lemma no_active_update:
  assumes inv: "\<forall>s \<in> set ss. s_refresh_token s = t \<longrightarrow> \<not> s_is_active s"
  shows "\<forall>s \<in> set (map (\<lambda>x. if s_id x = s_id (old\<lparr>s_is_active := False, s_revoked_at := r\<rparr>)
                               then old\<lparr>s_is_active := False, s_revoked_at := r\<rparr> else x) ss).
           s_refresh_token s = t \<longrightarrow> \<not> s_is_active s"
proof
  fix s
  assume "s \<in> set (map (\<lambda>x. if s_id x = s_id (old\<lparr>s_is_active := False, s_revoked_at := r\<rparr>)
                               then old\<lparr>s_is_active := False, s_revoked_at := r\<rparr> else x) ss)"
  then obtain x where x: "x \<in> set ss"
    and s: "s = (if s_id x = s_id (old\<lparr>s_is_active := False, s_revoked_at := r\<rparr>)
                 then old\<lparr>s_is_active := False, s_revoked_at := r\<rparr> else x)"
    by (auto simp only: set_map image_iff)
  show "s_refresh_token s = t \<longrightarrow> \<not> s_is_active s"
  proof (cases "s_id x = s_id (old\<lparr>s_is_active := False, s_revoked_at := r\<rparr>)")
    case True
    then show ?thesis using s by simp
  next
    case False
    then have "s = x" using s by simp
    then show ?thesis using inv x by blast
  qed
qed

lemma no_active_refresh:
  assumes inv: "\<forall>s \<in> set (sessions db). s_refresh_token s = t \<longrightarrow> \<not> s_is_active s"
    and other: "\<forall>pair. fst (refresh_token st now jti tok db) = Inr pair \<longrightarrow> tp_refresh_token pair \<noteq> t"
  shows "\<forall>s \<in> set (sessions (snd (refresh_token st now jti tok db))).
           s_refresh_token s = t \<longrightarrow> \<not> s_is_active s"
  using refresh_cases [of st now jti tok db]
proof (elim disjE exE conjE)
  assume "snd (refresh_token st now jti tok db) = db"
  then show ?thesis using inv by simp
next
  fix old :: session and p :: token_payload and uid :: int
  let ?old' = "old\<lparr>s_is_active := False, s_revoked_at := Some now\<rparr>"
  let ?upd = "map (\<lambda>x. if s_id x = s_id ?old' then ?old' else x) (sessions db)"
  let ?pair = "create_token_pair st now jti (StrSubject (p_sub p))"
  let ?new = "Session db now uid (tp_refresh_token ?pair) now (s_client_ip old) (s_user_agent old)"
  assume eq: "refresh_token st now jti tok db = (Inr ?pair, db\<lparr>sessions := ?upd @ [?new]\<rparr>)"
  have "tp_refresh_token ?pair \<noteq> t" using other eq by simp
  then have n: "s_refresh_token ?new \<noteq> t" by (simp add: Session_fields)
  have u: "\<forall>s \<in> set ?upd. s_refresh_token s = t \<longrightarrow> \<not> s_is_active s"
    by (rule no_active_update [OF inv])
  have "\<forall>s \<in> set (?upd @ [?new]). s_refresh_token s = t \<longrightarrow> \<not> s_is_active s"
  proof
    fix s assume "s \<in> set (?upd @ [?new])"
    then have "s \<in> set ?upd \<or> s = ?new" by (simp only: set_append Un_iff list.set) blast
    then show "s_refresh_token s = t \<longrightarrow> \<not> s_is_active s" using u n by blast
  qed
  then show ?thesis unfolding eq by simp
qed

lemma no_active_logout:
  assumes inv: "\<forall>s \<in> set (sessions db). s_refresh_token s = t \<longrightarrow> \<not> s_is_active s"
  shows "\<forall>s \<in> set (sessions (snd (logout now tok db))).
           s_refresh_token s = t \<longrightarrow> \<not> s_is_active s"
proof (cases "find (\<lambda>s. s_refresh_token s = tok) (sessions db)")
  case None
  then show ?thesis using inv by (simp add: logout_def)
next
  case (Some old)
  show ?thesis
    using no_active_update [OF inv, where old = old and r = "Some now"] Some
    by (simp add: logout_def update_session_def)
qed

lemma no_active_delete:
  assumes inv: "\<forall>s \<in> set (sessions db). s_refresh_token s = t \<longrightarrow> \<not> s_is_active s"
  shows "\<forall>s \<in> set (sessions (delete_my_account cu db)).
           s_refresh_token s = t \<longrightarrow> \<not> s_is_active s"
  using inv by (simp add: delete_my_account_def)

lemma later_no_active:
  assumes "later_state c st t start db"
    and "\<forall>s \<in> set (sessions start). s_refresh_token s = t \<longrightarrow> \<not> s_is_active s"
  shows "\<forall>s \<in> set (sessions db). s_refresh_token s = t \<longrightarrow> \<not> s_is_active s"
  using assms
proof (induction rule: later_state.induct)
  case same
  then show ?case by simp
next
  case (users_written db us)
  then show ?case by simp
next
  case (after_login db now jti request client_ip user_agent)
  from after_login.IH [OF after_login.prems] after_login.hyps(2)
  show ?case by (rule no_active_login)
next
  case (after_refresh db now jti request_token)
  from after_refresh.IH [OF after_refresh.prems] after_refresh.hyps(2)
  show ?case by (rule no_active_refresh)
next
  case (after_logout db now request_token)
  from after_logout.IH [OF after_logout.prems]
  show ?case by (rule no_active_logout)
next
  case (after_delete db current_user)
  from after_delete.IH [OF after_delete.prems]
  show ?case by (rule no_active_delete)
qed

lemma refresh_without_active_session:
  assumes inv: "\<forall>s \<in> set (sessions db). s_refresh_token s = t \<longrightarrow> \<not> s_is_active s"
    and v: "verify_token st now t ''refresh'' = Inr (Some p)"
  shows "refresh_token st now jti t db = (Inl (HTTPException 401 detail_refresh_no_session), db)"
proof -
  have "find (\<lambda>s. s_refresh_token s = t \<and> s_is_active s) (sessions db) = None"
    unfolding find_None_iff using inv by blast
  then show ?thesis unfolding refresh_token_def by (simp add: v)
qed

lemma refresh_with_expired_token:
  assumes "verify_token st now t ''refresh'' = Inr None"
  shows "refresh_token st now jti t db = (Inl (HTTPException 401 detail_refresh_invalid), db)"
  unfolding refresh_token_def by (simp add: assms)

lemma rotated_db_eq:
  "rotated_db =
      \<lparr>users = [alice\<lparr>u_last_login := Some 1000\<rparr>],
       sessions =
         [\<lparr>s_id = 1, s_user_id = 1, s_refresh_token = tp_refresh_token alice_pair,
           s_expires_at = 1000, s_client_ip = Some ''10.0.0.7'', s_user_agent = None,
           s_is_active = False, s_revoked_at = Some 2000, s_created_at = 1000\<rparr>,
          \<lparr>s_id = 2, s_user_id = 1,
           s_refresh_token =
             tp_refresh_token (create_token_pair server_settings 2000 ''beef'' (StrSubject ''1'')),
           s_expires_at = 2000, s_client_ip = Some ''10.0.0.7'', s_user_agent = None,
           s_is_active = True, s_revoked_at = None, s_created_at = 2000\<rparr>]\<rparr>"
  unfolding rotated_db_def alice_refresh by simp

lemma different_details: "detail_refresh_invalid \<noteq> detail_refresh_no_session"
  by (simp add: detail_refresh_invalid_def detail_refresh_no_session_def)

text \<open>
  Claim C1 as stated fails in one respect: a second refresh with the same token does fail,
  but once the token's own expiry has passed it fails at the token check, with the
  invalid-token error, before the session is looked up. Here the token expires at 605800,
  the first refresh is at time 2000 and the second at time 700000.
\<close>

theorem second_refresh_after_expiry_counterexample:
  "fst (refresh_token server_settings 2000 ''beef'' (tp_refresh_token alice_pair) logged_in_db)
     = Inr (create_token_pair server_settings 2000 ''beef'' (StrSubject ''1''))
   \<and> snd (refresh_token server_settings 2000 ''beef'' (tp_refresh_token alice_pair) logged_in_db)
     = rotated_db
   \<and> refresh_token server_settings 700000 ''cafe'' (tp_refresh_token alice_pair) rotated_db
     = (Inl (HTTPException 401 detail_refresh_invalid), rotated_db)
   \<and> refresh_token server_settings 700000 ''cafe'' (tp_refresh_token alice_pair) rotated_db
     \<noteq> (Inl (HTTPException 401 detail_refresh_no_session), rotated_db)"
proof -
  have a: "fst (refresh_token server_settings 2000 ''beef'' (tp_refresh_token alice_pair) logged_in_db)
     = Inr (create_token_pair server_settings 2000 ''beef'' (StrSubject ''1''))"
    by (simp add: alice_refresh)
  have b: "snd (refresh_token server_settings 2000 ''beef'' (tp_refresh_token alice_pair) logged_in_db)
     = rotated_db"
    by (simp add: rotated_db_def)
  have v: "verify_token server_settings 700000 (tp_refresh_token alice_pair) ''refresh'' = Inr None"
    unfolding alice_refresh_token
    by (simp add: verify_token_def jwt_decode_def claims_well_typed_def is_jint_def is_jstr_def
        server_settings_def)
  have c: "refresh_token server_settings 700000 ''cafe'' (tp_refresh_token alice_pair) rotated_db
     = (Inl (HTTPException 401 detail_refresh_invalid), rotated_db)"
    unfolding refresh_token_def v by simp
  from a b c different_details show ?thesis by simp
qed

text \<open>
  Claim C1, as amended. At every reachable state at most one session row is active for any
  refresh-token value. After a successful refresh with a token, every later refresh attempt
  with the same token fails and changes nothing, in the state that the refresh leaves and in
  every state that follows it by further requests of any kind that do not issue that very
  token string again: with the session-expired error as long as the token's own expiry has
  not passed, and with the invalid-token error once it has. The successful refresh leaves
  the old row in place with its token, marked inactive and with the revocation time set, and
  appends a new active row that holds the new, different token.
\<close>

theorem refresh_token_single_use:
  "(reachable c st db \<longrightarrow>
      (\<forall>t. length (filter (\<lambda>s. s_is_active s \<and> s_refresh_token s = t) (sessions db)) \<le> 1))
   \<and> (reachable c st db \<and> refresh_token st now jti tok db = (Inr pair, db') \<longrightarrow>
        (\<exists>e. token_exp tok = Some e \<and> now \<le> e
           \<and> (\<forall>after later draw. later_state c st tok db' after \<and> later \<le> e \<longrightarrow>
                 refresh_token st later draw tok after
                   = (Inl (HTTPException 401 detail_refresh_no_session), after))
           \<and> (\<forall>after later draw. e < later \<longrightarrow>
                 refresh_token st later draw tok after
                   = (Inl (HTTPException 401 detail_refresh_invalid), after)))
        \<and> (\<exists>old new.
              find (\<lambda>s. s_refresh_token s = tok \<and> s_is_active s) (sessions db) = Some old
            \<and> sessions db' =
                map (\<lambda>x. if x = old then old\<lparr>s_is_active := False, s_revoked_at := Some now\<rparr>
                          else x) (sessions db) @ [new]
            \<and> s_refresh_token new = tp_refresh_token pair
            \<and> s_refresh_token new \<noteq> tok
            \<and> s_is_active new \<and> s_revoked_at new = None
            \<and> users db' = users db))"
proof (intro conjI impI)
  assume "reachable c st db"
  then have "distinct (map s_refresh_token (sessions db))"
    using reachable_table_ok by (auto simp add: table_ok_def)
  then show "\<forall>t. length (filter (\<lambda>s. s_is_active s \<and> s_refresh_token s = t) (sessions db)) \<le> 1"
    by (intro allI at_most_one_per_token)
next
  assume a: "reachable c st db \<and> refresh_token st now jti tok db = (Inr pair, db')"
  then have ok: "table_ok (sessions db)" using reachable_table_ok by blast
  from a have first: "refresh_token st now jti tok db = (Inr pair, db')" by blast
  let ?rev = "\<lambda>old :: session. old\<lparr>s_is_active := False, s_revoked_at := Some now\<rparr>"
  from refresh_success_inv [OF first]
  obtain old p uid where
    f: "find (\<lambda>s. s_refresh_token s = tok \<and> s_is_active s) (sessions db) = Some old"
    and v: "verify_token st now tok ''refresh'' = Inr (Some p)"
    and fresh: "tp_refresh_token pair
             \<notin> set (map s_refresh_token
                  (map (\<lambda>x. if s_id x = s_id old then ?rev old else x) (sessions db)))"
    and eq: "db' = db\<lparr>sessions :=
                 map (\<lambda>x. if s_id x = s_id old then ?rev old else x) (sessions db)
                 @ [Session db now uid (tp_refresh_token pair) now (s_client_ip old)
                      (s_user_agent old)]\<rparr>"
    by (elim exE conjE) blast
  let ?new = "Session db now uid (tp_refresh_token pair) now (s_client_ip old) (s_user_agent old)"
  have m: "old \<in> set (sessions db)" and t: "s_refresh_token old = tok"
    using find_in_set [OF f] by simp_all
  have fresh': "s_refresh_token ?new \<notin> set (map s_refresh_token
        (map (\<lambda>x. if s_id x = s_id old then ?rev old else x) (sessions db)))"
    using fresh by (simp add: Session_fields)
  note rt = rotated_table [OF ok m fresh']
  have none: "find (\<lambda>s. s_refresh_token s = tok \<and> s_is_active s) (sessions db') = None"
    using rt(1) unfolding eq t by simp
  then have revoked: "\<forall>s \<in> set (sessions db'). s_refresh_token s = tok \<longrightarrow> \<not> s_is_active s"
    unfolding find_None_iff by blast
  have ne: "s_refresh_token ?new \<noteq> tok" using rt(2) t by simp
  have shape: "sessions db' = map (\<lambda>x. if x = old then ?rev old else x) (sessions db) @ [?new]"
    unfolding eq using rt(3) by simp
  note vt = verify_token_time [OF v]
  have later_ok: "refresh_token st later draw tok after
      = (Inl (HTTPException 401 detail_refresh_no_session), after)"
    if l: "later_state c st tok db' after" and le: "later \<le> p_exp p" for after later draw
  proof -
    have inv: "\<forall>s \<in> set (sessions after). s_refresh_token s = tok \<longrightarrow> \<not> s_is_active s"
      by (rule later_no_active [OF l revoked])
    have "verify_token st later tok ''refresh'' = Inr (Some p)" using vt le by simp
    then show ?thesis by (rule refresh_without_active_session [OF inv])
  qed
  have later_bad: "refresh_token st later draw tok after
      = (Inl (HTTPException 401 detail_refresh_invalid), after)"
    if "p_exp p < later" for after later draw
  proof -
    have "verify_token st later tok ''refresh'' = Inr None" using vt that by simp
    then show ?thesis by (rule refresh_with_expired_token)
  qed
  show "\<exists>e. token_exp tok = Some e \<and> now \<le> e
           \<and> (\<forall>after later draw. later_state c st tok db' after \<and> later \<le> e \<longrightarrow>
                 refresh_token st later draw tok after
                   = (Inl (HTTPException 401 detail_refresh_no_session), after))
           \<and> (\<forall>after later draw. e < later \<longrightarrow>
                 refresh_token st later draw tok after
                   = (Inl (HTTPException 401 detail_refresh_invalid), after))"
    using vt later_ok later_bad by blast
  have "find (\<lambda>s. s_refresh_token s = tok \<and> s_is_active s) (sessions db) = Some old
            \<and> sessions db' = map (\<lambda>x. if x = old then ?rev old else x) (sessions db) @ [?new]
            \<and> s_refresh_token ?new = tp_refresh_token pair
            \<and> s_refresh_token ?new \<noteq> tok
            \<and> s_is_active ?new \<and> s_revoked_at ?new = None
            \<and> users db' = users db"
    using f shape ne by (simp add: Session_fields eq)
  then show "\<exists>old new.
              find (\<lambda>s. s_refresh_token s = tok \<and> s_is_active s) (sessions db) = Some old
            \<and> sessions db' =
                map (\<lambda>x. if x = old then old\<lparr>s_is_active := False, s_revoked_at := Some now\<rparr>
                          else x) (sessions db) @ [new]
            \<and> s_refresh_token new = tp_refresh_token pair
            \<and> s_refresh_token new \<noteq> tok
            \<and> s_is_active new \<and> s_revoked_at new = None
            \<and> users db' = users db"
    by blast
qed

lemma logged_in_reachable: "reachable model_context server_settings logged_in_db"
proof -
  have "reachable model_context server_settings alice_db"
    unfolding alice_db_def by (rule reachable.initial)
  then show ?thesis
    unfolding logged_in_db_def by (rule reachable.after_login)
qed

lemma alice_relogin:
  "fst (login model_context server_settings 2500 ''d00d''
          \<lparr>req_username = ''alice'', req_password = alice_password\<rparr> None None rotated_db)
     = Inr (create_token_pair server_settings 2500 ''d00d'' (IntSubject 1))"
  and "map s_is_active (sessions relogged_db) = [False, True, True]"
  and "map s_refresh_token (sessions relogged_db) =
         [tp_refresh_token alice_pair,
          tp_refresh_token (create_token_pair server_settings 2000 ''beef'' (StrSubject ''1'')),
          tp_refresh_token (create_token_pair server_settings 2500 ''d00d'' (IntSubject 1))]"
proof -
  let ?rq = "\<lparr>req_username = ''alice'', req_password = alice_password\<rparr>"
  let ?u = "alice\<lparr>u_last_login := Some 1000\<rparr>"
  have f: "find_user (req_username ?rq) rotated_db = Some ?u"
    by (simp add: rotated_db_eq find_user_def alice_def)
  have nl: "\<not> is_locked ?u 2500" by (simp add: is_locked_def alice_def)
  have ok: "verify_password model_context (req_password ?rq) (u_hashed_password ?u) = Inr True"
    by (simp add: alice_verify)
  have id: "u_id ?u = 1" by (simp add: alice_def)
  have fresh: "tp_refresh_token (create_token_pair server_settings 2500 ''d00d'' (IntSubject (u_id ?u)))
           \<notin> set (map s_refresh_token (sessions rotated_db))"
    unfolding id by (simp add: rotated_db_eq alice_refresh_token refresh_exp_claim)
  note step = login_success [OF f nl ok fresh, where ip = None and ua = None]
  show "fst (login model_context server_settings 2500 ''d00d'' ?rq None None rotated_db)
     = Inr (create_token_pair server_settings 2500 ''d00d'' (IntSubject 1))"
    unfolding step id by simp
  show "map s_is_active (sessions relogged_db) = [False, True, True]"
    unfolding relogged_db_def step id by (simp add: rotated_db_eq Session_fields)
  show "map s_refresh_token (sessions relogged_db) =
         [tp_refresh_token alice_pair,
          tp_refresh_token (create_token_pair server_settings 2000 ''beef'' (StrSubject ''1'')),
          tp_refresh_token (create_token_pair server_settings 2500 ''d00d'' (IntSubject 1))]"
    unfolding relogged_db_def step id by (simp add: rotated_db_eq Session_fields)
qed

lemma relogged_later:
  "later_state model_context server_settings (tp_refresh_token alice_pair) rotated_db relogged_db"
  unfolding relogged_db_def
proof (rule later_state.after_login [OF later_state.same], intro allI impI)
  fix pair
  assume "fst (login model_context server_settings 2500 ''d00d''
          \<lparr>req_username = ''alice'', req_password = alice_password\<rparr> None None rotated_db)
     = Inr pair"
  then have "pair = create_token_pair server_settings 2500 ''d00d'' (IntSubject 1)"
    unfolding alice_relogin(1) by simp
  then show "tp_refresh_token pair \<noteq> tp_refresh_token alice_pair"
    by (simp add: alice_refresh_token refresh_exp_claim)
qed

theorem refresh_token_single_use_witness:
  "reachable model_context server_settings logged_in_db
   \<and> refresh_token server_settings 2000 ''beef'' (tp_refresh_token alice_pair) logged_in_db
       = (Inr (create_token_pair server_settings 2000 ''beef'' (StrSubject ''1'')), rotated_db)
   \<and> length (filter (\<lambda>s. s_is_active s \<and> s_refresh_token s = tp_refresh_token alice_pair)
               (sessions logged_in_db)) \<le> 1
   \<and> refresh_token server_settings 3000 ''cafe'' (tp_refresh_token alice_pair) rotated_db
       = (Inl (HTTPException 401 detail_refresh_no_session), rotated_db)
   \<and> later_state model_context server_settings (tp_refresh_token alice_pair) rotated_db relogged_db
   \<and> refresh_token server_settings 3000 ''cafe'' (tp_refresh_token alice_pair) relogged_db
       = (Inl (HTTPException 401 detail_refresh_no_session), relogged_db)
   \<and> refresh_token server_settings 700000 ''cafe'' (tp_refresh_token alice_pair) relogged_db
       = (Inl (HTTPException 401 detail_refresh_invalid), relogged_db)"
proof -
  let ?T = "tp_refresh_token alice_pair"
  let ?pair = "create_token_pair server_settings 2000 ''beef'' (StrSubject ''1'')"
  have r: "reachable model_context server_settings logged_in_db"
    by (rule logged_in_reachable)
  have first: "refresh_token server_settings 2000 ''beef'' ?T logged_in_db = (Inr ?pair, rotated_db)"
    unfolding rotated_db_eq by (rule alice_refresh)
  have l0: "later_state model_context server_settings ?T rotated_db rotated_db"
    by (rule later_state.same)
  have l1: "later_state model_context server_settings ?T rotated_db relogged_db"
    by (rule relogged_later)
  note T = refresh_token_single_use [where c = model_context and st = server_settings
      and db = logged_in_db and now = 2000 and jti = "''beef''" and tok = ?T and pair = ?pair
      and db' = rotated_db]
  from T r have inv: "\<forall>t. length (filter (\<lambda>s. s_is_active s \<and> s_refresh_token s = t)
      (sessions logged_in_db)) \<le> 1"
    by blast
  from T r first obtain e where e: "token_exp ?T = Some e"
    and ok: "\<forall>after later draw.
                 later_state model_context server_settings ?T rotated_db after \<and> later \<le> e \<longrightarrow>
                 refresh_token server_settings later draw ?T after
                   = (Inl (HTTPException 401 detail_refresh_no_session), after)"
    and bad: "\<forall>after later draw. e < later \<longrightarrow>
                 refresh_token server_settings later draw ?T after
                   = (Inl (HTTPException 401 detail_refresh_invalid), after)"
    by blast
  have "token_exp ?T = Some 605800"
    by (simp add: alice_refresh_token token_exp_def)
  with e have e': "e = 605800" by simp
  have a: "refresh_token server_settings 3000 ''cafe'' ?T rotated_db
       = (Inl (HTTPException 401 detail_refresh_no_session), rotated_db)"
    using ok l0 e' by simp
  have b: "refresh_token server_settings 3000 ''cafe'' ?T relogged_db
       = (Inl (HTTPException 401 detail_refresh_no_session), relogged_db)"
    using ok l1 e' by simp
  have c: "refresh_token server_settings 700000 ''cafe'' ?T relogged_db
       = (Inl (HTTPException 401 detail_refresh_invalid), relogged_db)"
    using bad e' by simp
  from r first inv a l1 b c show ?thesis by blast
qed

subsection \<open>Logout\<close>

lemma logout_response: "fst (logout now tok db) = Inr message_logout"
  by (simp add: logout_def split: option.split)

lemma logout_no_match:
  "find (\<lambda>s. s_refresh_token s = tok) (sessions db) = None \<Longrightarrow> logout now tok db = (Inr message_logout, db)"
  by (simp add: logout_def)

lemma find_update_session:
  "find P ss = Some old \<Longrightarrow> P new \<Longrightarrow> s_id new = s_id old \<Longrightarrow>
     find P (map (\<lambda>x. if s_id x = s_id new then new else x) ss) = Some new"
  by (induction ss) (auto split: if_splits)

lemma logout_match:
  assumes f: "find (\<lambda>s. s_refresh_token s = tok) (sessions db) = Some old"
  shows "snd (logout now tok db) =
           update_session (old\<lparr>s_is_active := False, s_revoked_at := Some now\<rparr>) db"
    and "find (\<lambda>s. s_refresh_token s = tok) (sessions (snd (logout now tok db)))
           = Some (old\<lparr>s_is_active := False, s_revoked_at := Some now\<rparr>)"
proof -
  let ?new = "old\<lparr>s_is_active := False, s_revoked_at := Some now\<rparr>"
  show eq: "snd (logout now tok db) = update_session ?new db"
    using f by (simp add: logout_def)
  have t: "s_refresh_token old = tok" using find_in_set [OF f] by simp
  have "find (\<lambda>s. s_refresh_token s = tok)
      (map (\<lambda>x. if s_id x = s_id ?new then ?new else x) (sessions db)) = Some ?new"
    by (rule find_update_session [OF f]) (simp_all add: t)
  then show "find (\<lambda>s. s_refresh_token s = tok) (sessions (snd (logout now tok db))) = Some ?new"
    unfolding eq update_session_def by simp
qed

lemma logout_twice:
  "snd (logout later tok (snd (logout now tok db))) = snd (logout later tok db)"
proof (cases "find (\<lambda>s. s_refresh_token s = tok) (sessions db)")
  case None
  then show ?thesis by (simp add: logout_no_match)
next
  case (Some old)
  let ?mid = "old\<lparr>s_is_active := False, s_revoked_at := Some now\<rparr>"
  let ?fin = "old\<lparr>s_is_active := False, s_revoked_at := Some later\<rparr>"
  have a: "snd (logout now tok db) = update_session ?mid db"
    and b: "find (\<lambda>s. s_refresh_token s = tok) (sessions (snd (logout now tok db))) = Some ?mid"
    using logout_match [OF Some] by simp_all
  have c: "snd (logout later tok (snd (logout now tok db)))
      = update_session (?mid\<lparr>s_is_active := False, s_revoked_at := Some later\<rparr>)
          (snd (logout now tok db))"
    by (rule logout_match(1) [OF b])
  have d: "snd (logout later tok db) = update_session ?fin db"
    by (rule logout_match(1) [OF Some])
  show ?thesis
    by (subst c, subst d) (simp add: a update_session_def comp_def)
qed

lemma alice_logout:
  "snd (logout t (tp_refresh_token alice_pair) logged_in_db) =
     \<lparr>users = [alice\<lparr>u_last_login := Some 1000\<rparr>],
      sessions = [\<lparr>s_id = 1, s_user_id = 1, s_refresh_token = tp_refresh_token alice_pair,
          s_expires_at = 1000, s_client_ip = Some ''10.0.0.7'', s_user_agent = None,
          s_is_active = False, s_revoked_at = Some t, s_created_at = 1000\<rparr>]\<rparr>"
  by (simp add: logout_def logged_in_db_eq update_session_def)

text \<open>
  Claim C9 as stated fails in its second half: logging out again with the token of a session
  that is already revoked is no error, but it is not a no-op, for it writes the revocation
  time again. Here a logout at time 3000 and another at time 4000.
\<close>

theorem logout_again_counterexample:
  "map s_is_active (sessions (snd (logout 3000 (tp_refresh_token alice_pair) logged_in_db)))
     = [False]
   \<and> map s_revoked_at (sessions (snd (logout 3000 (tp_refresh_token alice_pair) logged_in_db)))
     = [Some 3000]
   \<and> map s_revoked_at (sessions (snd (logout 4000 (tp_refresh_token alice_pair)
        (snd (logout 3000 (tp_refresh_token alice_pair) logged_in_db)))))
     = [Some 4000]
   \<and> snd (logout 4000 (tp_refresh_token alice_pair)
        (snd (logout 3000 (tp_refresh_token alice_pair) logged_in_db)))
     \<noteq> snd (logout 3000 (tp_refresh_token alice_pair) logged_in_db)"
proof -
  have twice: "snd (logout 4000 (tp_refresh_token alice_pair)
        (snd (logout 3000 (tp_refresh_token alice_pair) logged_in_db)))
      = snd (logout 4000 (tp_refresh_token alice_pair) logged_in_db)"
    by (rule logout_twice)
  show ?thesis
    unfolding twice by (simp add: alice_logout)
qed

text \<open>
  Claim C9, as amended. Logout never raises an error. With a refresh token that matches no
  session it changes nothing. With a token that matches a session it leaves that session
  inactive with the revocation time set to the time of this logout, also when the session
  was revoked before: the earlier revocation time is overwritten, and nothing else of the
  session changes. Two logouts with the same token leave the state that the later one alone
  would leave.
\<close>

theorem logout_best_effort:
  "fst (logout now tok db) = Inr message_logout
   \<and> (find (\<lambda>s. s_refresh_token s = tok) (sessions db) = None \<longrightarrow>
        snd (logout now tok db) = db)
   \<and> (find (\<lambda>s. s_refresh_token s = tok) (sessions db) = Some old \<longrightarrow>
        find (\<lambda>s. s_refresh_token s = tok) (sessions (snd (logout now tok db)))
          = Some (old\<lparr>s_is_active := False, s_revoked_at := Some now\<rparr>))
   \<and> (find (\<lambda>s. s_refresh_token s = tok) (sessions db) = Some old \<and> \<not> s_is_active old \<longrightarrow>
        find (\<lambda>s. s_refresh_token s = tok) (sessions (snd (logout now tok db)))
          = Some (old\<lparr>s_revoked_at := Some now\<rparr>))
   \<and> snd (logout later tok (snd (logout now tok db))) = snd (logout later tok db)"
proof (intro conjI impI)
  show "fst (logout now tok db) = Inr message_logout" by (rule logout_response)
next
  assume "find (\<lambda>s. s_refresh_token s = tok) (sessions db) = None"
  then show "snd (logout now tok db) = db" by (simp add: logout_no_match)
next
  assume "find (\<lambda>s. s_refresh_token s = tok) (sessions db) = Some old"
  then show "find (\<lambda>s. s_refresh_token s = tok) (sessions (snd (logout now tok db)))
          = Some (old\<lparr>s_is_active := False, s_revoked_at := Some now\<rparr>)"
    by (rule logout_match(2))
next
  assume a: "find (\<lambda>s. s_refresh_token s = tok) (sessions db) = Some old \<and> \<not> s_is_active old"
  then have "old\<lparr>s_is_active := False, s_revoked_at := Some now\<rparr> = old\<lparr>s_revoked_at := Some now\<rparr>"
    by simp
  then show "find (\<lambda>s. s_refresh_token s = tok) (sessions (snd (logout now tok db)))
          = Some (old\<lparr>s_revoked_at := Some now\<rparr>)"
    using a logout_match(2) [of tok db old now] by simp
next
  show "snd (logout later tok (snd (logout now tok db))) = snd (logout later tok db)"
    by (rule logout_twice)
qed

theorem logout_best_effort_witness:
  "fst (logout 3000 (Opaque ''no-such-token'') logged_in_db) = Inr message_logout
   \<and> snd (logout 3000 (Opaque ''no-such-token'') logged_in_db) = logged_in_db
   \<and> find (\<lambda>s. s_refresh_token s = tp_refresh_token alice_pair)
        (sessions (snd (logout 4000 (tp_refresh_token alice_pair) rotated_db)))
      = Some \<lparr>s_id = 1, s_user_id = 1, s_refresh_token = tp_refresh_token alice_pair,
           s_expires_at = 1000, s_client_ip = Some ''10.0.0.7'', s_user_agent = None,
           s_is_active = False, s_revoked_at = Some 4000, s_created_at = 1000\<rparr>"
proof -
  let ?old = "\<lparr>s_id = 1, s_user_id = 1, s_refresh_token = tp_refresh_token alice_pair,
           s_expires_at = 1000, s_client_ip = Some ''10.0.0.7'', s_user_agent = None,
           s_is_active = False, s_revoked_at = Some 2000, s_created_at = 1000\<rparr>"
  have n: "find (\<lambda>s. s_refresh_token s = Opaque ''no-such-token'') (sessions logged_in_db) = None"
    by (simp add: logged_in_db_eq alice_refresh_token)
  have f: "find (\<lambda>s. s_refresh_token s = tp_refresh_token alice_pair) (sessions rotated_db)
      = Some ?old \<and> \<not> s_is_active ?old"
    by (simp add: rotated_db_eq)
  from logout_best_effort [where now = 3000 and tok = "Opaque ''no-such-token''"
      and db = logged_in_db] n
  have a: "fst (logout 3000 (Opaque ''no-such-token'') logged_in_db) = Inr message_logout"
    and b: "snd (logout 3000 (Opaque ''no-such-token'') logged_in_db) = logged_in_db"
    by blast+
  from logout_best_effort [where now = 4000 and tok = "tp_refresh_token alice_pair"
      and db = rotated_db and old = ?old] f
  have c: "find (\<lambda>s. s_refresh_token s = tp_refresh_token alice_pair)
        (sessions (snd (logout 4000 (tp_refresh_token alice_pair) rotated_db)))
      = Some (?old\<lparr>s_revoked_at := Some 4000\<rparr>)"
    by blast
  from a b c show ?thesis by simp
qed

end

